theory Spec2Isabelle
  imports Main
begin

section \<open>The periodic-task scheduling controller\<close>

text \<open>
  A shallow embedding of \<^verbatim>\<open>src/uxi_celery_scheduler/controller.py\<close>. The controller
  works against an SQLAlchemy \<^verbatim>\<open>Session\<close>; the session, the objects it manages and
  the rows behind them are an explicit state that every operation takes and returns.
  Exceptions are values of \<open>error\<close>; an operation that raises returns \<open>Inl\<close> and
  leaves the unit of work to its caller.
\<close>

subsection \<open>Errors\<close>

text \<open>
  \<open>PeriodicTaskNotFound\<close> is the controller's own exception. The others are
  raised by Python or by the ORM: \<open>NoResultFound\<close> and \<open>MultipleResultsFound\<close> by
  \<^verbatim>\<open>Query.one\<close> / \<^verbatim>\<open>Query.one_or_none\<close>, \<open>AttributeError\<close> by an attribute
  assignment on \<^verbatim>\<open>None\<close>, \<open>UnmappedInstanceError\<close> by \<^verbatim>\<open>Session.delete(None)\<close>,
  \<open>InvalidRequestError\<close> by \<^verbatim>\<open>Session.add\<close> / \<^verbatim>\<open>Session.delete\<close> on an object in the
  wrong state, \<open>StatementError\<close> by a query whose parameter is an object without a
  primary key, \<open>TypeError\<close> by \<^verbatim>\<open>json.dumps\<close> on a value it cannot serialise.
\<close>

datatype error =
    PeriodicTaskNotFound
  | NoResultFound
  | MultipleResultsFound
  | AttributeError
  | UnmappedInstanceError
  | InvalidRequestError
  | StatementError
  | TypeError

subsection \<open>Data model\<close>

text \<open>
  Python objects that a session manages have an identity: two tasks may hold the same
  \<^verbatim>\<open>CrontabSchedule\<close> object, and a flush writes the primary key into the very object
  the caller holds. Managed objects therefore live in a store addressed by references.
\<close>

type_synonym ref = nat

text \<open>
  The state of a managed object in its session. \<open>Pending\<close>: registered with
  \<^verbatim>\<open>Session.add\<close> (or reached by the save-update cascade), no row yet.
  \<open>Persistent\<close>: has a row. \<open>MarkedDeleted\<close>: has a row and is registered for
  deletion by \<^verbatim>\<open>Session.delete\<close>; the row goes at the next flush.
  \<open>Deleted\<close>: the row has been removed by a flush.
\<close>

datatype instance_state = Pending | Persistent | MarkedDeleted | Deleted

text \<open>
  Modelled from the spec: \<^verbatim>\<open>uxi_celery_scheduler.data_models.Schedule\<close> is not among the
  sources. The spec gives it the five cron fields and the time zone, each a string.
\<close>

record Schedule =
  minute :: string
  hour :: string
  day_of_week :: string
  day_of_month :: string
  month_of_year :: string
  timezone :: string

text \<open>
  Modelled from the spec: \<^verbatim>\<open>uxi_celery_scheduler.db.models.CrontabSchedule\<close> is not among
  the sources. A managed schedule object has the six fields of a \<open>Schedule\<close>, the
  primary key the store assigns when the row is inserted, and its state in the session.
\<close>

record CrontabSchedule = Schedule +
  id :: "nat option"
  sa_state :: instance_state

text \<open>
  Modelled from the spec: \<^verbatim>\<open>uxi_celery_scheduler.data_models.ScheduledTask\<close> is not among
  the sources: a name, a task reference and a \<open>Schedule\<close>.
\<close>

record ScheduledTask =
  name :: string
  task :: string
  schedule :: Schedule

text \<open>
  Modelled from the spec: \<^verbatim>\<open>uxi_celery_scheduler.db.models.PeriodicTask\<close> is not among the
  sources. \<open>crontab\<close> is the relationship attribute (a reference to the schedule
  object), \<open>crontab_id\<close> the foreign-key column behind it, which the ORM brings in line
  with \<open>crontab\<close> when it flushes the task. \<open>enabled\<close> is \<open>None\<close> while the attribute
  has never been assigned (the constructor call in \<^verbatim>\<open>schedule_task\<close> does not pass it;
  column defaults belong to the absent model file and are not modelled).
\<close>

record PeriodicTask =
  id :: "nat option"
  name :: string
  task :: string
  kwargs :: string
  enabled :: "bool option"
  crontab_id :: "nat option"
  crontab :: ref
  sa_state :: instance_state

text \<open>
  A \<^verbatim>\<open>CrontabSchedule\<close> object as the controller handles it: either an object the session
  manages, or a transient one, just constructed from a \<open>Schedule\<close> and known to no
  session. A transient object has no identity worth tracking (nothing else refers to
  it), so it is the value of its fields.
\<close>

datatype crontab_object = InSession ref | Transient Schedule

text \<open>
  The session with everything behind it. \<open>crontabs\<close> and \<open>tasks\<close> hold the managed
  objects, a reference being a position; objects are only ever appended, so references
  stay valid. The rows of a table are the objects in state \<open>Persistent\<close> or
  \<open>MarkedDeleted\<close>. \<open>autoflush\<close> is the session's configuration flag of that name
  (SQLAlchemy's default is \<open>True\<close>): when set, every query flushes first.
\<close>

record session =
  autoflush :: bool
  crontabs :: "CrontabSchedule list"
  tasks :: "PeriodicTask list"

subsection \<open>Looking objects up\<close>

fun refs_from :: "nat \<Rightarrow> ('a \<Rightarrow> bool) \<Rightarrow> 'a list \<Rightarrow> ref list" where
  "refs_from n P [] = []"
| "refs_from n P (x # xs) =
     (if P x then n # refs_from (Suc n) P xs else refs_from (Suc n) P xs)"

definition refs_where :: "('a \<Rightarrow> bool) \<Rightarrow> 'a list \<Rightarrow> ref list" where
  "refs_where P xs = refs_from 0 P xs"

definition is_row :: "instance_state \<Rightarrow> bool" where
  "is_row st = (st = Persistent \<or> st = MarkedDeleted)"

definition same_fields :: "'a Schedule_scheme \<Rightarrow> 'b Schedule_scheme \<Rightarrow> bool" where
  "same_fields c sch =
     (minute c = minute sch \<and> hour c = hour sch \<and> day_of_week c = day_of_week sch \<and>
      day_of_month c = day_of_month sch \<and> month_of_year c = month_of_year sch \<and>
      timezone c = timezone sch)"

definition crontab_pk :: "CrontabSchedule list \<Rightarrow> ref \<Rightarrow> nat option" where
  "crontab_pk cs r = (if r < length cs then CrontabSchedule.id (cs ! r) else None)"

subsection \<open>Flush\<close>

text \<open>
  The store hands out a primary key larger than every key in use.
\<close>

definition fresh_id :: "nat option list \<Rightarrow> nat" where
  "fresh_id ids = Suc (fold (\<lambda>i m. case i of None \<Rightarrow> m | Some k \<Rightarrow> max k m) ids 0)"

text \<open>INSERT of the pending schedules, in the order they were registered.\<close>

fun insert_crontabs :: "nat \<Rightarrow> CrontabSchedule list \<Rightarrow> CrontabSchedule list" where
  "insert_crontabs n [] = []"
| "insert_crontabs n (c # cs) =
     (if CrontabSchedule.sa_state c = Pending
      then c\<lparr>CrontabSchedule.id := Some n, CrontabSchedule.sa_state := Persistent\<rparr>
             # insert_crontabs (Suc n) cs
      else c # insert_crontabs n cs)"

text \<open>
  INSERT of the pending tasks and UPDATE of the persistent ones. Saving a task copies the
  primary key of the schedule object it refers to into its foreign-key column. A task
  registered for deletion is not saved.
\<close>

fun save_tasks :: "CrontabSchedule list \<Rightarrow> nat \<Rightarrow> PeriodicTask list \<Rightarrow> PeriodicTask list" where
  "save_tasks cs n [] = []"
| "save_tasks cs n (t # ts) =
     (if PeriodicTask.sa_state t = Pending
      then t\<lparr>PeriodicTask.id := Some n, crontab_id := crontab_pk cs (crontab t),
               PeriodicTask.sa_state := Persistent\<rparr> # save_tasks cs (Suc n) ts
      else if PeriodicTask.sa_state t = Persistent
      then t\<lparr>crontab_id := crontab_pk cs (crontab t)\<rparr> # save_tasks cs n ts
      else t # save_tasks cs n ts)"

text \<open>DELETE of the rows registered for deletion.\<close>

definition expunge_crontab :: "CrontabSchedule \<Rightarrow> CrontabSchedule" where
  "expunge_crontab c =
     (if CrontabSchedule.sa_state c = MarkedDeleted
      then c\<lparr>CrontabSchedule.sa_state := Deleted\<rparr> else c)"

definition expunge_task :: "PeriodicTask \<Rightarrow> PeriodicTask" where
  "expunge_task t =
     (if PeriodicTask.sa_state t = MarkedDeleted
      then t\<lparr>PeriodicTask.sa_state := Deleted\<rparr> else t)"

text \<open>
  \<^verbatim>\<open>Session.flush()\<close>: schedules are inserted before the tasks that refer to them, rows
  are deleted last.
\<close>

definition session_flush :: "session \<Rightarrow> session" where
  "session_flush s =
     (let cs = insert_crontabs (fresh_id (map CrontabSchedule.id (crontabs s))) (crontabs s);
          ts = save_tasks cs (fresh_id (map PeriodicTask.id (tasks s))) (tasks s)
      in s\<lparr>crontabs := map expunge_crontab cs, tasks := map expunge_task ts\<rparr>)"

text \<open>What a query does before it reads.\<close>

definition query_autoflush :: "session \<Rightarrow> session" where
  "query_autoflush s = (if autoflush s then session_flush s else s)"

subsection \<open>Session primitives\<close>

text \<open>
  \<^verbatim>\<open>session.query(PeriodicTask).get(periodic_task_id)\<close>. The identity map is consulted
  first and answers without a flush; it still holds an object registered for deletion.
  Otherwise the lookup is a query. No matching row gives \<^verbatim>\<open>None\<close>: \<^verbatim>\<open>Query.get\<close> never
  raises \<open>NoResultFound\<close>.
\<close>

definition identity_map_get :: "PeriodicTask list \<Rightarrow> nat \<Rightarrow> ref option" where
  "identity_map_get ts i =
     (case refs_where (\<lambda>t. is_row (PeriodicTask.sa_state t) \<and> PeriodicTask.id t = Some i) ts of
        [] \<Rightarrow> None
      | r # _ \<Rightarrow> Some r)"

definition session_get :: "session \<Rightarrow> nat \<Rightarrow> ref option \<times> session" where
  "session_get s i =
     (case identity_map_get (tasks s) i of
        Some t \<Rightarrow> (Some t, s)
      | None \<Rightarrow> (let s1 = query_autoflush s in (identity_map_get (tasks s1) i, s1)))"

text \<open>
  The save-update cascade along \<^verbatim>\<open>PeriodicTask.crontab\<close>: a transient schedule attached to
  a task of the session becomes a pending object of the session; an object the session
  already manages is left as it is.
\<close>

definition cascade_crontab :: "session \<Rightarrow> crontab_object \<Rightarrow> ref \<times> session" where
  "cascade_crontab s c =
     (case c of
        InSession r \<Rightarrow> (r, s)
      | Transient sch \<Rightarrow>
          (length (crontabs s),
           s\<lparr>crontabs := crontabs s @
               [Schedule.extend sch
                  \<lparr>CrontabSchedule.id = None, CrontabSchedule.sa_state = Pending\<rparr>]\<rparr>))"

text \<open>
  \<^verbatim>\<open>task = PeriodicTask(crontab=..., name=..., task=..., kwargs=...)\<close> followed by
  \<^verbatim>\<open>session.add(task)\<close>: the new object is pending, and so is its schedule if that was
  transient.
\<close>

definition session_add_new ::
  "session \<Rightarrow> crontab_object \<Rightarrow> string \<Rightarrow> string \<Rightarrow> string \<Rightarrow> ref \<times> session" where
  "session_add_new s c n t kw =
     (case cascade_crontab s c of
        (r, s1) \<Rightarrow>
          (length (tasks s1),
           s1\<lparr>tasks := tasks s1 @
               [\<lparr>PeriodicTask.id = None, name = n, task = t, kwargs = kw, enabled = None,
                 crontab_id = None, crontab = r, PeriodicTask.sa_state = Pending\<rparr>]\<rparr>))"

definition modify_task :: "session \<Rightarrow> ref \<Rightarrow> (PeriodicTask \<Rightarrow> PeriodicTask) \<Rightarrow> session" where
  "modify_task s t f = s\<lparr>tasks := (tasks s)[t := f (tasks s ! t)]\<rparr>"

definition modify_crontab ::
  "session \<Rightarrow> ref \<Rightarrow> (CrontabSchedule \<Rightarrow> CrontabSchedule) \<Rightarrow> session" where
  "modify_crontab s r f = s\<lparr>crontabs := (crontabs s)[r := f (crontabs s ! r)]\<rparr>"

text \<open>
  \<^verbatim>\<open>session.add(task)\<close> for an object the session already manages: nothing to do for a
  pending or persistent object; a registration for deletion is withdrawn; an object
  whose row a flush has removed is refused.
\<close>

definition session_add :: "session \<Rightarrow> ref \<Rightarrow> error + session" where
  "session_add s t =
     (case PeriodicTask.sa_state (tasks s ! t) of
        Deleted \<Rightarrow> Inl InvalidRequestError
      | MarkedDeleted \<Rightarrow> Inr (modify_task s t (\<lambda>x. x\<lparr>PeriodicTask.sa_state := Persistent\<rparr>))
      | _ \<Rightarrow> Inr s)"

text \<open>
  \<^verbatim>\<open>session.delete(obj)\<close>: a pending object, which has no row yet, is refused; a
  persistent object is registered for deletion; an object already registered for
  deletion, or whose row a flush has removed, is left as it is. Nothing cascades: the
  relationship is many-to-one.
\<close>

definition session_delete_task :: "session \<Rightarrow> ref \<Rightarrow> error + session" where
  "session_delete_task s t =
     (case PeriodicTask.sa_state (tasks s ! t) of
        Pending \<Rightarrow> Inl InvalidRequestError
      | Persistent \<Rightarrow> Inr (modify_task s t (\<lambda>x. x\<lparr>PeriodicTask.sa_state := MarkedDeleted\<rparr>))
      | _ \<Rightarrow> Inr s)"

definition session_delete_crontab :: "session \<Rightarrow> ref \<Rightarrow> error + session" where
  "session_delete_crontab s r =
     (case CrontabSchedule.sa_state (crontabs s ! r) of
        Pending \<Rightarrow> Inl InvalidRequestError
      | Persistent \<Rightarrow>
          Inr (modify_crontab s r (\<lambda>x. x\<lparr>CrontabSchedule.sa_state := MarkedDeleted\<rparr>))
      | _ \<Rightarrow> Inr s)"

text \<open>
  \<^verbatim>\<open>Query.one_or_none()\<close>: \<^verbatim>\<open>None\<close> for no row, the object for one row,
  \<open>MultipleResultsFound\<close> for more.
\<close>

definition one_or_none :: "ref list \<Rightarrow> error + ref option" where
  "one_or_none rs =
     (case rs of
        [] \<Rightarrow> Inr None
      | [r] \<Rightarrow> Inr (Some r)
      | _ \<Rightarrow> Inl MultipleResultsFound)"

text \<open>
  \<^verbatim>\<open>except NoResultFound as e: raise PeriodicTaskNotFound() from e\<close>: the handler around
  the body of the three operations that address a task by identifier.
\<close>

definition except_NoResultFound :: "error + 'a \<Rightarrow> error + 'a" where
  "except_NoResultFound r =
     (case r of
        Inl e \<Rightarrow> (if e = NoResultFound then Inl PeriodicTaskNotFound else Inl e)
      | Inr x \<Rightarrow> Inr x)"

subsection \<open>The controller\<close>

text \<open>The rows the filter of \<^verbatim>\<open>get_crontab_schedule\<close> selects: all six fields equal.\<close>

definition query_crontabs :: "session \<Rightarrow> Schedule \<Rightarrow> ref list" where
  "query_crontabs s sch =
     refs_where (\<lambda>c. is_row (CrontabSchedule.sa_state c) \<and> same_fields c sch) (crontabs s)"

text \<open>
  \<^verbatim>\<open>get_crontab_schedule\<close> (lines 13-28). A mapped object is true in a boolean context,
  so \<^verbatim>\<open>crontab or CrontabSchedule(**schedule.dict())\<close> is the row found, or a transient
  object built from the six fields when there is none.
\<close>

definition get_crontab_schedule ::
  "session \<Rightarrow> Schedule \<Rightarrow> error + (crontab_object \<times> session)" where
  "get_crontab_schedule s sch =
     (let s1 = query_autoflush s in
      case one_or_none (query_crontabs s1 sch) of
        Inl e \<Rightarrow> Inl e
      | Inr (Some r) \<Rightarrow> Inr (InSession r, s1)
      | Inr None \<Rightarrow> Inr (Transient sch, s1))"

text \<open>
  \<^verbatim>\<open>schedule_task\<close> (lines 31-48). \<open>json_dumps\<close> stands for \<^verbatim>\<open>json.dumps\<close> on the keyword
  arguments, whatever their type; it is a parameter.
\<close>

definition schedule_task ::
  "('k \<Rightarrow> error + string) \<Rightarrow> session \<Rightarrow> ScheduledTask \<Rightarrow> 'k \<Rightarrow> error + (ref \<times> session)" where
  "schedule_task json_dumps s scheduled_task kw =
     (case get_crontab_schedule s (schedule scheduled_task) of
        Inl e \<Rightarrow> Inl e
      | Inr (c, s1) \<Rightarrow>
          (case json_dumps kw of
             Inl e \<Rightarrow> Inl e
           | Inr js \<Rightarrow>
               Inr (session_add_new s1 c (ScheduledTask.name scheduled_task)
                      (ScheduledTask.task scheduled_task) js)))"

text \<open>
  \<^verbatim>\<open>update_task_enabled_status\<close> (lines 51-67). When \<^verbatim>\<open>get\<close> returns \<^verbatim>\<open>None\<close>, the
  assignment \<^verbatim>\<open>task.enabled = enabled_status\<close> raises \<open>AttributeError\<close>.
\<close>

definition update_task_enabled_status ::
  "session \<Rightarrow> bool \<Rightarrow> nat \<Rightarrow> error + (ref \<times> session)" where
  "update_task_enabled_status s enabled_status periodic_task_id =
     except_NoResultFound
       (case session_get s periodic_task_id of
          (None, s1) \<Rightarrow> Inl AttributeError
        | (Some t, s1) \<Rightarrow>
            (case session_add (modify_task s1 t (\<lambda>x. x\<lparr>enabled := Some enabled_status\<rparr>)) t of
               Inl e \<Rightarrow> Inl e
             | Inr s2 \<Rightarrow> Inr (t, s2)))"

text \<open>
  \<^verbatim>\<open>task.crontab = ...\<close> on a task of the session: the new value is cascaded into the
  session, then the relationship attribute refers to it.
\<close>

definition set_crontab :: "session \<Rightarrow> ref \<Rightarrow> crontab_object \<Rightarrow> session" where
  "set_crontab s t c =
     (case cascade_crontab s c of (r, s1) \<Rightarrow> modify_task s1 t (\<lambda>x. x\<lparr>crontab := r\<rparr>))"

text \<open>
  \<^verbatim>\<open>update_task\<close> (lines 70-89). The right-hand side of \<^verbatim>\<open>task.crontab = ...\<close> is
  evaluated before the assignment, so the schedule is resolved before a missing task
  raises \<open>AttributeError\<close>.
\<close>

definition update_task :: "session \<Rightarrow> ScheduledTask \<Rightarrow> nat \<Rightarrow> error + (ref \<times> session)" where
  "update_task s scheduled_task periodic_task_id =
     except_NoResultFound
       (case session_get s periodic_task_id of
          (found, s1) \<Rightarrow>
            (case get_crontab_schedule s1 (schedule scheduled_task) of
               Inl e \<Rightarrow> Inl e
             | Inr (c, s2) \<Rightarrow>
                 (case found of
                    None \<Rightarrow> Inl AttributeError
                  | Some t \<Rightarrow>
                      (let s3 = set_crontab s2 t c;
                           s4 = modify_task s3 t
                                  (\<lambda>x. x\<lparr>PeriodicTask.name := ScheduledTask.name scheduled_task\<rparr>);
                           s5 = modify_task s4 t
                                  (\<lambda>x. x\<lparr>PeriodicTask.task := ScheduledTask.task scheduled_task\<rparr>)
                       in case session_add s5 t of
                            Inl e \<Rightarrow> Inl e
                          | Inr s6 \<Rightarrow> Inr (t, s6)))))"

text \<open>
  \<^verbatim>\<open>filter_by(crontab=crontab_schedule)\<close> compares the foreign-key column of the task rows
  with the primary key of the object given.
\<close>

definition references :: "nat option \<Rightarrow> PeriodicTask \<Rightarrow> bool" where
  "references pk t = (is_row (PeriodicTask.sa_state t) \<and> pk \<noteq> None \<and> crontab_id t = pk)"

definition primary_key :: "session \<Rightarrow> crontab_object \<Rightarrow> nat option" where
  "primary_key s c =
     (case c of InSession r \<Rightarrow> crontab_pk (crontabs s) r | Transient sch \<Rightarrow> None)"

text \<open>
  An object has a primary key from the flush that inserts its row on: a transient
  object and a pending one have none.
\<close>

definition has_primary_key :: "session \<Rightarrow> crontab_object \<Rightarrow> bool" where
  "has_primary_key s c =
     (case c of
        InSession r \<Rightarrow>
          r < length (crontabs s) \<and> CrontabSchedule.sa_state (crontabs s ! r) \<noteq> Pending
      | Transient sch \<Rightarrow> False)"

text \<open>
  \<^verbatim>\<open>crontab_is_used\<close> (lines 92-94). The query flushes first when the session does, then
  takes the primary key of the object given as its parameter; for an object that has
  none (no value was ever set for the column) it raises \<open>StatementError\<close>.
\<close>

definition crontab_is_used :: "session \<Rightarrow> crontab_object \<Rightarrow> error + (bool \<times> session)" where
  "crontab_is_used s crontab_schedule =
     (let s1 = query_autoflush s in
      if \<not> has_primary_key s1 crontab_schedule then Inl StatementError
      else
        (let schedules = refs_where (references (primary_key s1 crontab_schedule)) (tasks s1)
         in Inr (if schedules \<noteq> [] then True else False, s1)))"

text \<open>
  \<^verbatim>\<open>delete_task\<close> (lines 97-106). \<^verbatim>\<open>session.delete(None)\<close> raises
  \<open>UnmappedInstanceError\<close>. \<^verbatim>\<open>task.crontab\<close> is read after the flush.
\<close>

definition delete_task :: "session \<Rightarrow> nat \<Rightarrow> error + (ref \<times> session)" where
  "delete_task s periodic_task_id =
     except_NoResultFound
       (case session_get s periodic_task_id of
          (None, s1) \<Rightarrow> Inl UnmappedInstanceError
        | (Some t, s1) \<Rightarrow>
            (case session_delete_task s1 t of
               Inl e \<Rightarrow> Inl e
             | Inr s2 \<Rightarrow>
                 (let s3 = session_flush s2;
                      c = crontab (tasks s3 ! t)
                  in case crontab_is_used s3 (InSession c) of
                       Inl e \<Rightarrow> Inl e
                     | Inr (used, s4) \<Rightarrow>
                         (if \<not> used
                          then (case session_delete_crontab s4 c of
                                  Inl e \<Rightarrow> Inl e
                                | Inr s5 \<Rightarrow> Inr (t, s5))
                          else Inr (t, s4)))))"

subsection \<open>Vocabulary of the properties\<close>

text \<open>The six fields of a schedule object, whether managed or transient.\<close>

definition crontab_fields :: "session \<Rightarrow> crontab_object \<Rightarrow> Schedule" where
  "crontab_fields s c =
     (case c of
        InSession r \<Rightarrow> Schedule.truncate (crontabs s ! r)
      | Transient sch \<Rightarrow> sch)"

text \<open>
  Nothing is waiting for a flush: no object is pending or registered for deletion, and
  the foreign key of every task row agrees with the schedule object the task refers to.
\<close>

definition flushed :: "session \<Rightarrow> bool" where
  "flushed s =
     ((\<forall>c \<in> set (crontabs s).
         CrontabSchedule.sa_state c = Persistent \<or> CrontabSchedule.sa_state c = Deleted) \<and>
      (\<forall>t \<in> set (tasks s).
         (PeriodicTask.sa_state t = Persistent \<or> PeriodicTask.sa_state t = Deleted) \<and>
         (PeriodicTask.sa_state t = Persistent \<longrightarrow>
            crontab_id t = crontab_pk (crontabs s) (crontab t))))"

text \<open>
  Two states hold the same objects with the same data: as many schedules and tasks, every
  schedule with the same six fields, every task with the same name, task, keyword
  arguments, enabled flag and schedule. (What a flush changes is left out: the state of
  an object in the session, its primary key, the foreign-key column.)
\<close>

definition same_contents :: "session \<Rightarrow> session \<Rightarrow> bool" where
  "same_contents s1 s =
     (length (crontabs s1) = length (crontabs s) \<and> length (tasks s1) = length (tasks s) \<and>
      (\<forall>r < length (crontabs s).
         Schedule.truncate (crontabs s1 ! r) = Schedule.truncate (crontabs s ! r)) \<and>
      (\<forall>t < length (tasks s).
         PeriodicTask.name (tasks s1 ! t) = PeriodicTask.name (tasks s ! t) \<and>
         PeriodicTask.task (tasks s1 ! t) = PeriodicTask.task (tasks s ! t) \<and>
         kwargs (tasks s1 ! t) = kwargs (tasks s ! t) \<and>
         enabled (tasks s1 ! t) = enabled (tasks s ! t) \<and>
         crontab (tasks s1 ! t) = crontab (tasks s ! t)))"

text \<open>
  Primary keys are in order: every schedule object that is not pending has one, and no two
  schedule objects have the same.
\<close>

definition well_keyed :: "session \<Rightarrow> bool" where
  "well_keyed s =
     ((\<forall>r < length (crontabs s).
         CrontabSchedule.sa_state (crontabs s ! r) \<noteq> Pending \<longrightarrow>
         CrontabSchedule.id (crontabs s ! r) \<noteq> None) \<and>
      (\<forall>r1 < length (crontabs s). \<forall>r2 < length (crontabs s).
         CrontabSchedule.id (crontabs s ! r1) = CrontabSchedule.id (crontabs s ! r2) \<and>
         CrontabSchedule.id (crontabs s ! r1) \<noteq> None \<longrightarrow> r1 = r2))"

text \<open>An object is registered with the session and its row is not gone.\<close>

definition registered :: "instance_state \<Rightarrow> bool" where
  "registered st = (st = Pending \<or> st = Persistent)"

subsection \<open>Example states\<close>

definition every_minute :: Schedule where
  "every_minute =
     \<lparr>minute = ''*'', hour = ''*'', day_of_week = ''*'', day_of_month = ''*'',
      month_of_year = ''*'', timezone = ''UTC''\<rparr>"

definition hourly :: Schedule where
  "hourly =
     \<lparr>minute = ''0'', hour = ''*'', day_of_week = ''*'', day_of_month = ''*'',
      month_of_year = ''*'', timezone = ''UTC''\<rparr>"

definition report_hourly :: ScheduledTask where
  "report_hourly =
     \<lparr>ScheduledTask.name = ''report'', ScheduledTask.task = ''jobs.report'',
      schedule = hourly\<rparr>"

definition report_every_minute :: ScheduledTask where
  "report_every_minute =
     \<lparr>ScheduledTask.name = ''report'', ScheduledTask.task = ''jobs.summary'',
      schedule = every_minute\<rparr>"

definition empty_session :: session where
  "empty_session = \<lparr>autoflush = True, crontabs = [], tasks = []\<rparr>"

text \<open>One schedule row (every minute, key 1) and one enabled task row (key 1) using it.\<close>

definition one_task_session :: session where
  "one_task_session =
     \<lparr>autoflush = True,
      crontabs = [Schedule.extend every_minute
                    \<lparr>CrontabSchedule.id = Some 1, CrontabSchedule.sa_state = Persistent\<rparr>],
      tasks = [\<lparr>PeriodicTask.id = Some 1, name = ''ping'', task = ''jobs.ping'',
                kwargs = ''{}'', enabled = Some True, crontab_id = Some 1, crontab = 0,
                PeriodicTask.sa_state = Persistent\<rparr>]\<rparr>"

text \<open>The same schedule row shared by two task rows (keys 1 and 2).\<close>

definition two_task_session :: session where
  "two_task_session =
     \<lparr>autoflush = True,
      crontabs = [Schedule.extend every_minute
                    \<lparr>CrontabSchedule.id = Some 1, CrontabSchedule.sa_state = Persistent\<rparr>],
      tasks = [\<lparr>PeriodicTask.id = Some 1, name = ''ping'', task = ''jobs.ping'',
                kwargs = ''{}'', enabled = Some True, crontab_id = Some 1, crontab = 0,
                PeriodicTask.sa_state = Persistent\<rparr>,
               \<lparr>PeriodicTask.id = Some 2, name = ''pong'', task = ''jobs.pong'',
                kwargs = ''{}'', enabled = Some False, crontab_id = Some 1, crontab = 0,
                PeriodicTask.sa_state = Persistent\<rparr>]\<rparr>"

text \<open>
  The store with one task after \<^verbatim>\<open>delete_task\<close> of task 1: the task row is gone and
  the schedule is registered for deletion.
\<close>

definition one_task_deleted :: session where
  "one_task_deleted =
     \<lparr>autoflush = True,
      crontabs = [Schedule.extend every_minute
                    \<lparr>CrontabSchedule.id = Some 1, CrontabSchedule.sa_state = MarkedDeleted\<rparr>],
      tasks = [\<lparr>PeriodicTask.id = Some 1, name = ''ping'', task = ''jobs.ping'',
                kwargs = ''{}'', enabled = Some True, crontab_id = Some 1, crontab = 0,
                PeriodicTask.sa_state = Deleted\<rparr>]\<rparr>"

text \<open>
  The store with two tasks after \<^verbatim>\<open>delete_task\<close> of task 1: the task row is gone, the
  schedule row stays for task 2.
\<close>

definition two_task_deleted :: session where
  "two_task_deleted =
     \<lparr>autoflush = True,
      crontabs = [Schedule.extend every_minute
                    \<lparr>CrontabSchedule.id = Some 1, CrontabSchedule.sa_state = Persistent\<rparr>],
      tasks = [\<lparr>PeriodicTask.id = Some 1, name = ''ping'', task = ''jobs.ping'',
                kwargs = ''{}'', enabled = Some True, crontab_id = Some 1, crontab = 0,
                PeriodicTask.sa_state = Deleted\<rparr>,
               \<lparr>PeriodicTask.id = Some 2, name = ''pong'', task = ''jobs.pong'',
                kwargs = ''{}'', enabled = Some False, crontab_id = Some 1, crontab = 0,
                PeriodicTask.sa_state = Persistent\<rparr>]\<rparr>"

text \<open>
  The state \<open>one_task_deleted\<close> after a flush: the schedule row is gone as well.
\<close>

definition one_task_flushed :: session where
  "one_task_flushed =
     \<lparr>autoflush = True,
      crontabs = [Schedule.extend every_minute
                    \<lparr>CrontabSchedule.id = Some 1, CrontabSchedule.sa_state = Deleted\<rparr>],
      tasks = [\<lparr>PeriodicTask.id = Some 1, name = ''ping'', task = ''jobs.ping'',
                kwargs = ''{}'', enabled = Some True, crontab_id = Some 1, crontab = 0,
                PeriodicTask.sa_state = Deleted\<rparr>]\<rparr>"

text \<open>
  The store with one task after \<^verbatim>\<open>schedule_task\<close> of an hourly report: a pending task
  and its pending schedule have joined the two rows.
\<close>

definition one_task_scheduled :: session where
  "one_task_scheduled =
     \<lparr>autoflush = True,
      crontabs = [Schedule.extend every_minute
                    \<lparr>CrontabSchedule.id = Some 1, CrontabSchedule.sa_state = Persistent\<rparr>,
                  Schedule.extend hourly
                    \<lparr>CrontabSchedule.id = None, CrontabSchedule.sa_state = Pending\<rparr>],
      tasks = [\<lparr>PeriodicTask.id = Some 1, name = ''ping'', task = ''jobs.ping'',
                kwargs = ''{}'', enabled = Some True, crontab_id = Some 1, crontab = 0,
                PeriodicTask.sa_state = Persistent\<rparr>,
               \<lparr>PeriodicTask.id = None, name = ''report'', task = ''jobs.report'',
                kwargs = ''{}'', enabled = None, crontab_id = None, crontab = 1,
                PeriodicTask.sa_state = Pending\<rparr>]\<rparr>"

text \<open>The same state after a flush: both pending objects have their rows and keys.\<close>

definition one_task_scheduled_flushed :: session where
  "one_task_scheduled_flushed =
     \<lparr>autoflush = True,
      crontabs = [Schedule.extend every_minute
                    \<lparr>CrontabSchedule.id = Some 1, CrontabSchedule.sa_state = Persistent\<rparr>,
                  Schedule.extend hourly
                    \<lparr>CrontabSchedule.id = Some 2, CrontabSchedule.sa_state = Persistent\<rparr>],
      tasks = [\<lparr>PeriodicTask.id = Some 1, name = ''ping'', task = ''jobs.ping'',
                kwargs = ''{}'', enabled = Some True, crontab_id = Some 1, crontab = 0,
                PeriodicTask.sa_state = Persistent\<rparr>,
               \<lparr>PeriodicTask.id = Some 2, name = ''report'', task = ''jobs.report'',
                kwargs = ''{}'', enabled = None, crontab_id = Some 2, crontab = 1,
                PeriodicTask.sa_state = Persistent\<rparr>]\<rparr>"

section \<open>Properties\<close>

subsection \<open>Unfolding\<close>

lemmas controller_defs =
  update_task_enabled_status_def update_task_def delete_task_def schedule_task_def
  get_crontab_schedule_def crontab_is_used_def

lemmas session_defs =
  session_get_def identity_map_get_def refs_where_def query_autoflush_def
  session_flush_def fresh_id_def except_NoResultFound_def query_crontabs_def
  one_or_none_def cascade_crontab_def session_add_new_def modify_task_def
  modify_crontab_def session_add_def session_delete_task_def session_delete_crontab_def
  set_crontab_def references_def primary_key_def has_primary_key_def crontab_pk_def
  is_row_def
  same_fields_def expunge_crontab_def expunge_task_def

lemmas example_defs =
  every_minute_def hourly_def report_hourly_def report_every_minute_def empty_session_def one_task_session_def
  two_task_session_def one_task_deleted_def two_task_deleted_def one_task_flushed_def
  one_task_scheduled_def one_task_scheduled_flushed_def Schedule.extend_def
  Schedule.truncate_def

subsection \<open>References selected by a predicate\<close>

lemma refs_from_append:
  "refs_from n P (xs @ ys) = refs_from n P xs @ refs_from (n + length xs) P ys"
  by (induction xs arbitrary: n) auto

lemma refs_from_map: "refs_from n P (map f xs) = refs_from n (\<lambda>x. P (f x)) xs"
  by (induction xs arbitrary: n) auto

lemma refs_from_cong:
  "(\<And>x. x \<in> set xs \<Longrightarrow> P x = Q x) \<Longrightarrow> refs_from n P xs = refs_from n Q xs"
  by (induction xs arbitrary: n) auto

lemma refs_from_Nil_iff: "refs_from n P xs = [] \<longleftrightarrow> (\<forall>x \<in> set xs. \<not> P x)"
  by (induction xs arbitrary: n) auto

lemma refs_from_member:
  "r \<in> set (refs_from n P xs) \<longleftrightarrow> n \<le> r \<and> r - n < length xs \<and> P (xs ! (r - n))"
proof (induction xs arbitrary: n)
  case Nil
  then show ?case by simp
next
  case (Cons x xs)
  show ?case
  proof (cases "r = n")
    case True
    with Cons.IH [of "Suc n"] show ?thesis by auto
  next
    case False
    have "n \<le> r \<longleftrightarrow> Suc n \<le> r" using False by arith
    moreover have "Suc n \<le> r \<Longrightarrow> r - n = Suc (r - Suc n)" by arith
    ultimately show ?thesis using False Cons.IH [of "Suc n"] by auto
  qed
qed

lemma refs_where_member:
  "r \<in> set (refs_where P xs) \<longleftrightarrow> r < length xs \<and> P (xs ! r)"
  by (simp add: refs_where_def refs_from_member)

lemma refs_where_Nil_iff: "refs_where P xs = [] \<longleftrightarrow> (\<forall>x \<in> set xs. \<not> P x)"
  by (simp add: refs_where_def refs_from_Nil_iff)

lemma refs_where_nonempty_iff:
  "refs_where P xs \<noteq> [] \<longleftrightarrow> (\<exists>r < length xs. P (xs ! r))"
proof -
  have "(\<exists>x \<in> set xs. P x) \<longleftrightarrow> (\<exists>r < length xs. P (xs ! r))"
    by (metis in_set_conv_nth)
  then show ?thesis by (simp add: refs_where_Nil_iff)
qed

lemma refs_where_append:
  "refs_where P (xs @ ys) = refs_where P xs @ refs_from (length xs) P ys"
  by (simp add: refs_where_def refs_from_append)

lemma refs_where_snoc:
  "refs_where P (xs @ [y]) = refs_where P xs @ (if P y then [length xs] else [])"
  by (simp add: refs_where_append)

lemma refs_where_map: "refs_where P (map f xs) = refs_where (\<lambda>x. P (f x)) xs"
  by (simp add: refs_where_def refs_from_map)

lemma refs_where_cong:
  "(\<And>x. x \<in> set xs \<Longrightarrow> P x = Q x) \<Longrightarrow> refs_where P xs = refs_where Q xs"
  unfolding refs_where_def by (rule refs_from_cong)

lemma refs_from_update:
  "r < length xs \<Longrightarrow> P y = P (xs ! r) \<Longrightarrow> refs_from n P (xs[r := y]) = refs_from n P xs"
proof (induction xs arbitrary: n r)
  case Nil
  then show ?case by simp
next
  case (Cons x xs)
  then show ?case by (cases r) auto
qed

lemma refs_where_update:
  "r < length xs \<Longrightarrow> P y = P (xs ! r) \<Longrightarrow> refs_where P (xs[r := y]) = refs_where P xs"
  by (simp add: refs_where_def refs_from_update)

subsection \<open>Flush\<close>

lemma length_insert_crontabs [simp]: "length (insert_crontabs n cs) = length cs"
  by (induction cs arbitrary: n) auto

lemma length_save_tasks [simp]: "length (save_tasks cs n ts) = length ts"
  by (induction ts arbitrary: n) auto

lemma insert_crontabs_nth:
  "r < length cs \<Longrightarrow>
     \<exists>k. insert_crontabs n cs ! r =
       (if CrontabSchedule.sa_state (cs ! r) = Pending
        then (cs ! r)\<lparr>CrontabSchedule.id := Some k, CrontabSchedule.sa_state := Persistent\<rparr>
        else cs ! r)"
proof (induction cs arbitrary: n r)
  case Nil
  then show ?case by simp
next
  case (Cons c cs)
  show ?case
  proof (cases r)
    case 0
    then show ?thesis by auto
  next
    case (Suc m)
    with Cons.prems have m: "m < length cs" by simp
    from Cons.IH [OF m, of "Suc n"] Cons.IH [OF m, of n] Suc
    show ?thesis by auto
  qed
qed

lemma save_tasks_nth:
  "r < length ts \<Longrightarrow>
     \<exists>k. save_tasks cs n ts ! r =
       (if PeriodicTask.sa_state (ts ! r) = Pending
        then (ts ! r)\<lparr>PeriodicTask.id := Some k, crontab_id := crontab_pk cs (crontab (ts ! r)),
                      PeriodicTask.sa_state := Persistent\<rparr>
        else if PeriodicTask.sa_state (ts ! r) = Persistent
        then (ts ! r)\<lparr>crontab_id := crontab_pk cs (crontab (ts ! r))\<rparr>
        else ts ! r)"
proof (induction ts arbitrary: n r)
  case Nil
  then show ?case by simp
next
  case (Cons t ts)
  show ?case
  proof (cases r)
    case 0
    then show ?thesis by auto
  next
    case (Suc m)
    with Cons.prems have m: "m < length ts" by simp
    from Cons.IH [OF m, of "Suc n"] Cons.IH [OF m, of n] Suc
    show ?thesis by auto
  qed
qed

lemma insert_crontabs_stable:
  "\<forall>c \<in> set cs. CrontabSchedule.sa_state c \<noteq> Pending \<Longrightarrow> insert_crontabs n cs = cs"
  by (induction cs arbitrary: n) auto

lemma insert_crontabs_append:
  "\<forall>c \<in> set xs. CrontabSchedule.sa_state c \<noteq> Pending \<Longrightarrow>
     insert_crontabs n (xs @ ys) = xs @ insert_crontabs n ys"
  by (induction xs arbitrary: n) auto

lemma save_tasks_stable:
  "\<forall>t \<in> set ts. PeriodicTask.sa_state t \<noteq> Pending \<and>
       (PeriodicTask.sa_state t = Persistent \<longrightarrow> crontab_id t = crontab_pk cs (crontab t)) \<Longrightarrow>
     save_tasks cs n ts = ts"
  by (induction ts arbitrary: n) auto

lemma save_tasks_append:
  "\<forall>t \<in> set xs. PeriodicTask.sa_state t \<noteq> Pending \<and>
       (PeriodicTask.sa_state t = Persistent \<longrightarrow> crontab_id t = crontab_pk cs (crontab t)) \<Longrightarrow>
     save_tasks cs n (xs @ ys) = xs @ save_tasks cs n ys"
  by (induction xs arbitrary: n) auto

lemma crontab_pk_expunge [simp]: "crontab_pk (map expunge_crontab cs) r = crontab_pk cs r"
  by (simp add: crontab_pk_def expunge_crontab_def)

lemma autoflush_session_flush [simp]: "autoflush (session_flush s) = autoflush s"
  by (simp add: session_flush_def Let_def)

lemma length_crontabs_flush [simp]: "length (crontabs (session_flush s)) = length (crontabs s)"
  by (simp add: session_flush_def Let_def)

lemma length_tasks_flush [simp]: "length (tasks (session_flush s)) = length (tasks s)"
  by (simp add: session_flush_def Let_def)

lemma crontabs_flush_nth:
  assumes "r < length (crontabs s)"
  shows "\<exists>k. crontabs (session_flush s) ! r =
       (case CrontabSchedule.sa_state (crontabs s ! r) of
          Pending \<Rightarrow> (crontabs s ! r)\<lparr>CrontabSchedule.id := Some k,
                                      CrontabSchedule.sa_state := Persistent\<rparr>
        | MarkedDeleted \<Rightarrow> (crontabs s ! r)\<lparr>CrontabSchedule.sa_state := Deleted\<rparr>
        | _ \<Rightarrow> crontabs s ! r)"
proof -
  obtain k where "insert_crontabs (fresh_id (map CrontabSchedule.id (crontabs s))) (crontabs s) ! r =
       (if CrontabSchedule.sa_state (crontabs s ! r) = Pending
        then (crontabs s ! r)\<lparr>CrontabSchedule.id := Some k, CrontabSchedule.sa_state := Persistent\<rparr>
        else crontabs s ! r)"
    using insert_crontabs_nth [OF assms] by blast
  then show ?thesis using assms
    by (cases "CrontabSchedule.sa_state (crontabs s ! r)")
       (auto simp: session_flush_def Let_def expunge_crontab_def)
qed

lemma tasks_flush_nth:
  assumes "r < length (tasks s)"
  shows "\<exists>k. tasks (session_flush s) ! r =
       (case PeriodicTask.sa_state (tasks s ! r) of
          Pending \<Rightarrow> (tasks s ! r)\<lparr>PeriodicTask.id := Some k,
                        crontab_id := crontab_pk (crontabs (session_flush s)) (crontab (tasks s ! r)),
                        PeriodicTask.sa_state := Persistent\<rparr>
        | Persistent \<Rightarrow> (tasks s ! r)\<lparr>crontab_id :=
                           crontab_pk (crontabs (session_flush s)) (crontab (tasks s ! r))\<rparr>
        | MarkedDeleted \<Rightarrow> (tasks s ! r)\<lparr>PeriodicTask.sa_state := Deleted\<rparr>
        | Deleted \<Rightarrow> tasks s ! r)"
proof -
  let ?cs = "insert_crontabs (fresh_id (map CrontabSchedule.id (crontabs s))) (crontabs s)"
  have pk: "crontab_pk (crontabs (session_flush s)) = crontab_pk ?cs"
    by (rule ext) (simp add: session_flush_def Let_def)
  obtain k where "save_tasks ?cs (fresh_id (map PeriodicTask.id (tasks s))) (tasks s) ! r =
       (if PeriodicTask.sa_state (tasks s ! r) = Pending
        then (tasks s ! r)\<lparr>PeriodicTask.id := Some k, crontab_id := crontab_pk ?cs (crontab (tasks s ! r)),
                      PeriodicTask.sa_state := Persistent\<rparr>
        else if PeriodicTask.sa_state (tasks s ! r) = Persistent
        then (tasks s ! r)\<lparr>crontab_id := crontab_pk ?cs (crontab (tasks s ! r))\<rparr>
        else tasks s ! r)"
    using save_tasks_nth [OF assms] by blast
  then show ?thesis using assms
    by (cases "PeriodicTask.sa_state (tasks s ! r)")
       (auto simp: pk session_flush_def Let_def expunge_task_def)
qed

lemma flushed_session_flush: "flushed (session_flush s)"
  unfolding flushed_def
proof (intro conjI ballI)
  fix c assume "c \<in> set (crontabs (session_flush s))"
  then obtain r where r: "r < length (crontabs s)" and c: "c = crontabs (session_flush s) ! r"
    by (auto simp: in_set_conv_nth)
  from crontabs_flush_nth [OF r] c
  show "CrontabSchedule.sa_state c = Persistent \<or> CrontabSchedule.sa_state c = Deleted"
    by (cases "CrontabSchedule.sa_state (crontabs s ! r)") auto
next
  fix t assume "t \<in> set (tasks (session_flush s))"
  then obtain r where r: "r < length (tasks s)" and t: "t = tasks (session_flush s) ! r"
    by (auto simp: in_set_conv_nth)
  from tasks_flush_nth [OF r] t
  show "PeriodicTask.sa_state t = Persistent \<or> PeriodicTask.sa_state t = Deleted"
    by (cases "PeriodicTask.sa_state (tasks s ! r)") auto
  from tasks_flush_nth [OF r] t
  show "PeriodicTask.sa_state t = Persistent \<longrightarrow>
          crontab_id t = crontab_pk (crontabs (session_flush s)) (crontab t)"
    by (cases "PeriodicTask.sa_state (tasks s ! r)") auto
qed

lemma session_flush_flushed:
  assumes "flushed s"
  shows "session_flush s = s"
proof -
  have cs: "insert_crontabs n (crontabs s) = crontabs s" for n
    using assms by (intro insert_crontabs_stable) (auto simp: flushed_def)
  have ts: "save_tasks (crontabs s) n (tasks s) = tasks s" for n
    using assms by (intro save_tasks_stable) (auto simp: flushed_def)
  have ec: "map expunge_crontab (crontabs s) = crontabs s"
    using assms by (intro map_idI) (auto simp: flushed_def expunge_crontab_def)
  have et: "map expunge_task (tasks s) = tasks s"
    using assms by (intro map_idI) (auto simp: flushed_def expunge_task_def)
  show ?thesis by (simp add: session_flush_def cs ts ec et)
qed

lemma session_flush_idem [simp]: "session_flush (session_flush s) = session_flush s"
  by (rule session_flush_flushed [OF flushed_session_flush])

lemma query_autoflush_idem [simp]: "query_autoflush (query_autoflush s) = query_autoflush s"
  by (simp add: query_autoflush_def)

lemma session_flush_query_autoflush [simp]:
  "session_flush (query_autoflush s) = session_flush s"
  by (simp add: query_autoflush_def)

lemma autoflush_query_autoflush [simp]: "autoflush (query_autoflush s) = autoflush s"
  by (simp add: query_autoflush_def)

lemma length_crontabs_query_autoflush [simp]:
  "length (crontabs (query_autoflush s)) = length (crontabs s)"
  by (simp add: query_autoflush_def)

lemma length_tasks_query_autoflush [simp]:
  "length (tasks (query_autoflush s)) = length (tasks s)"
  by (simp add: query_autoflush_def)

lemma same_contents_session_flush: "same_contents (session_flush s) s"
proof -
  have c: "Schedule.truncate (crontabs (session_flush s) ! r) = Schedule.truncate (crontabs s ! r)"
    if r: "r < length (crontabs s)" for r
    using crontabs_flush_nth [OF r]
    by (cases "CrontabSchedule.sa_state (crontabs s ! r)") (auto simp: Schedule.truncate_def)
  have t: "PeriodicTask.name (tasks (session_flush s) ! t) = PeriodicTask.name (tasks s ! t) \<and>
        PeriodicTask.task (tasks (session_flush s) ! t) = PeriodicTask.task (tasks s ! t) \<and>
        kwargs (tasks (session_flush s) ! t) = kwargs (tasks s ! t) \<and>
        enabled (tasks (session_flush s) ! t) = enabled (tasks s ! t) \<and>
        crontab (tasks (session_flush s) ! t) = crontab (tasks s ! t)"
    if t: "t < length (tasks s)" for t
    using tasks_flush_nth [OF t]
    by (cases "PeriodicTask.sa_state (tasks s ! t)") auto
  show ?thesis unfolding same_contents_def using c t by simp
qed

lemma same_contents_query_autoflush: "same_contents (query_autoflush s) s"
  using same_contents_session_flush [of s]
  by (simp add: query_autoflush_def same_contents_def)

subsection \<open>A task identifier nobody has\<close>

text \<open>
  When the lookup finds nothing, the body of each operation fails before it can reach
  the handler's exception: the error is never \<open>PeriodicTaskNotFound\<close>.
\<close>

lemma update_task_enabled_status_missing:
  "fst (session_get s i) = None \<Longrightarrow> update_task_enabled_status s b i = Inl AttributeError"
  by (auto simp: update_task_enabled_status_def except_NoResultFound_def
           split: prod.splits option.splits)

lemma delete_task_missing:
  "fst (session_get s i) = None \<Longrightarrow> delete_task s i = Inl UnmappedInstanceError"
  by (auto simp: delete_task_def except_NoResultFound_def split: prod.splits option.splits)

lemma update_task_missing:
  "fst (session_get s i) = None \<Longrightarrow>
     update_task s st i = Inl AttributeError \<or> update_task s st i = Inl MultipleResultsFound"
  by (auto simp: update_task_def except_NoResultFound_def get_crontab_schedule_def
                 one_or_none_def Let_def
           split: prod.splits option.splits sum.splits list.splits)

text \<open>
  C1. For a task identifier without a task, the three operations are claimed to raise
  \<open>PeriodicTaskNotFound\<close>. On the empty store with identifier 1 they raise
  \<open>AttributeError\<close>, \<open>AttributeError\<close> and \<open>UnmappedInstanceError\<close>: \<^verbatim>\<open>Query.get\<close>
  returns \<^verbatim>\<open>None\<close> instead of raising \<open>NoResultFound\<close>, so the handler that would
  translate the error never runs.
\<close>

theorem missing_task_is_not_PeriodicTaskNotFound:
  "update_task_enabled_status empty_session True 1 = Inl AttributeError \<and>
   update_task empty_session report_hourly 1 = Inl AttributeError \<and>
   delete_task empty_session 1 = Inl UnmappedInstanceError"
  by (simp add: controller_defs session_defs example_defs)

subsection \<open>The schedule resolver\<close>

lemma same_fields_truncate:
  "same_fields c (sch :: Schedule) \<longleftrightarrow> Schedule.truncate c = sch"
  by (cases sch) (auto simp: same_fields_def Schedule.truncate_def)

lemma query_autoflush_cases:
  "query_autoflush s = s \<or> (autoflush s \<and> query_autoflush s = session_flush s)"
  by (simp add: query_autoflush_def)

lemma query_autoflush_unchanged:
  "\<not> autoflush s \<or> flushed s \<Longrightarrow> query_autoflush s = s"
  by (auto simp: query_autoflush_def session_flush_flushed)

lemma get_crontab_schedule_Inr:
  assumes "get_crontab_schedule s sch = Inr (c, s1)"
  shows "s1 = query_autoflush s"
    and "c = Transient sch \<and> query_crontabs s1 sch = [] \<or>
         (\<exists>r. c = InSession r \<and> query_crontabs s1 sch = [r])"
  using assms
  by (auto simp: get_crontab_schedule_def one_or_none_def Let_def
           split: sum.splits option.splits list.splits)

lemma get_crontab_schedule_returns:
  assumes "length (query_crontabs (query_autoflush s) sch) \<le> 1"
  shows "\<exists>c. get_crontab_schedule s sch = Inr (c, query_autoflush s)"
proof (cases "query_crontabs (query_autoflush s) sch")
  case Nil
  then show ?thesis by (simp add: get_crontab_schedule_def one_or_none_def)
next
  case (Cons r rs)
  with assms have "rs = []" by simp
  with Cons show ?thesis by (simp add: get_crontab_schedule_def one_or_none_def)
qed

lemma query_crontabs_member:
  "r \<in> set (query_crontabs s sch) \<longleftrightarrow>
     r < length (crontabs s) \<and> is_row (CrontabSchedule.sa_state (crontabs s ! r)) \<and>
     same_fields (crontabs s ! r) sch"
  by (simp add: query_crontabs_def refs_where_member)

lemma get_crontab_schedule_fields:
  assumes "get_crontab_schedule s sch = Inr (c, s1)"
  shows "crontab_fields s1 c = sch"
proof -
  from get_crontab_schedule_Inr(2) [OF assms]
  show ?thesis
  proof
    assume "c = Transient sch \<and> query_crontabs s1 sch = []"
    then show ?thesis by (simp add: crontab_fields_def)
  next
    assume "\<exists>r. c = InSession r \<and> query_crontabs s1 sch = [r]"
    then obtain r where c: "c = InSession r" and q: "query_crontabs s1 sch = [r]" by blast
    then have "r \<in> set (query_crontabs s1 sch)" by simp
    then have "same_fields (crontabs s1 ! r) sch" by (simp add: query_crontabs_member)
    then show ?thesis using c by (simp add: crontab_fields_def same_fields_truncate)
  qed
qed

text \<open>
  C8, amended. The resolver registers nothing and changes no object's data. The state it
  returns is the state the session's flush before the query leaves: a session with
  \<open>autoflush\<close> first writes out what earlier operations registered (pending schedules
  and tasks get their rows, rows registered for deletion go), so the state returned
  holds the same objects with the same data and commits to the same rows as the state
  given, and it is the very same state when the session does not flush on queries or
  nothing is waiting for a flush. The resolver returns whenever at most one row has the
  fields. When no row matches, the result is a transient schedule: the six fields of
  the input, no primary key, no row.
\<close>

theorem get_crontab_schedule_reads_only:
  "(\<forall>c s1. get_crontab_schedule s sch = Inr (c, s1) \<longrightarrow>
      s1 = query_autoflush s \<and> same_contents s1 s \<and>
      session_flush s1 = session_flush s \<and>
      (\<not> autoflush s \<or> flushed s \<longrightarrow> s1 = s)) \<and>
   (length (query_crontabs (query_autoflush s) sch) \<le> 1 \<longrightarrow>
      (\<exists>c. get_crontab_schedule s sch = Inr (c, query_autoflush s))) \<and>
   (query_crontabs (query_autoflush s) sch = [] \<longrightarrow>
      get_crontab_schedule s sch = Inr (Transient sch, query_autoflush s) \<and>
      crontab_fields (query_autoflush s) (Transient sch) = sch \<and>
      primary_key (query_autoflush s) (Transient sch) = None)"
proof (intro conjI allI impI)
  fix c s1 assume r: "get_crontab_schedule s sch = Inr (c, s1)"
  show s1: "s1 = query_autoflush s" by (rule get_crontab_schedule_Inr(1) [OF r])
  show "same_contents s1 s" by (simp add: s1 same_contents_query_autoflush)
  show "session_flush s1 = session_flush s" by (simp add: s1)
  assume "\<not> autoflush s \<or> flushed s"
  then show "s1 = s" by (simp add: s1 query_autoflush_unchanged)
next
  assume "length (query_crontabs (query_autoflush s) sch) \<le> 1"
  then show "\<exists>c. get_crontab_schedule s sch = Inr (c, query_autoflush s)"
    by (rule get_crontab_schedule_returns)
next
  assume "query_crontabs (query_autoflush s) sch = []"
  then show "get_crontab_schedule s sch = Inr (Transient sch, query_autoflush s)"
    by (simp add: get_crontab_schedule_def one_or_none_def)
  show "crontab_fields (query_autoflush s) (Transient sch) = sch"
    by (simp add: crontab_fields_def)
  show "primary_key (query_autoflush s) (Transient sch) = None"
    by (simp add: primary_key_def)
qed

text \<open>
  C2. Resolving the same six fields twice gives the same schedule both times, with the
  six fields asked for, and the second call leaves the state of the first untouched: no
  schedule row is added. The schedule returned is the stored row when one has the
  fields, and a transient object when none has. The premise is the store's uniqueness
  requirement for the fields asked for (at most one row has them); with two such rows
  \<^verbatim>\<open>one_or_none\<close> raises \<open>MultipleResultsFound\<close>.
\<close>

theorem get_crontab_schedule_twice:
  assumes "length (query_crontabs (query_autoflush s) sch) \<le> 1"
  shows "\<exists>c s1. get_crontab_schedule s sch = Inr (c, s1) \<and>
           get_crontab_schedule s1 sch = Inr (c, s1) \<and>
           crontab_fields s1 c = sch \<and>
           session_flush s1 = session_flush s \<and>
           length (query_crontabs s1 sch) \<le> 1 \<and>
           (\<forall>r. query_crontabs s1 sch = [r] \<longrightarrow> c = InSession r) \<and>
           (query_crontabs s1 sch = [] \<longrightarrow> c = Transient sch)"
proof -
  let ?s1 = "query_autoflush s"
  from get_crontab_schedule_returns [OF assms]
  obtain c where first: "get_crontab_schedule s sch = Inr (c, ?s1)" by blast
  have "get_crontab_schedule ?s1 sch = get_crontab_schedule s sch"
    by (simp add: get_crontab_schedule_def)
  with first have second: "get_crontab_schedule ?s1 sch = Inr (c, ?s1)" by simp
  from get_crontab_schedule_Inr(2) [OF first]
  have which: "(\<forall>r. query_crontabs ?s1 sch = [r] \<longrightarrow> c = InSession r) \<and>
               (query_crontabs ?s1 sch = [] \<longrightarrow> c = Transient sch)"
    by auto
  have fl: "session_flush ?s1 = session_flush s" by simp
  from first second get_crontab_schedule_fields [OF first] assms which fl
  show ?thesis by blast
qed

subsection \<open>The resolver on the example store\<close>

lemma flush_one_task_session: "query_autoflush one_task_session = one_task_session"
  by (simp add: query_autoflush_def session_flush_def fresh_id_def expunge_crontab_def
      expunge_task_def crontab_pk_def one_task_session_def every_minute_def Schedule.extend_def)

lemma query_one_task_session_hourly: "query_crontabs one_task_session hourly = []"
  by (simp add: query_crontabs_def refs_where_def is_row_def same_fields_def example_defs)

lemma query_one_task_session_every_minute:
  "query_crontabs one_task_session every_minute = [0]"
  by (simp add: query_crontabs_def refs_where_def is_row_def same_fields_def example_defs)

text \<open>
  On the store with one schedule (every minute): resolving the hourly schedule finds no
  row and returns a transient object, resolving every minute returns the row; the
  store is the same afterwards.
\<close>

theorem get_crontab_schedule_reads_only_witness:
  "query_crontabs (query_autoflush one_task_session) hourly = [] \<and>
   get_crontab_schedule one_task_session hourly = Inr (Transient hourly, one_task_session) \<and>
   get_crontab_schedule one_task_session every_minute = Inr (InSession 0, one_task_session) \<and>
   session_flush one_task_session = one_task_session"
proof -
  have q: "query_crontabs (query_autoflush one_task_session) hourly = []"
    by (simp add: flush_one_task_session query_one_task_session_hourly)
  have r: "get_crontab_schedule one_task_session every_minute = Inr (InSession 0, one_task_session)"
    by (simp add: get_crontab_schedule_def flush_one_task_session
                  query_one_task_session_every_minute one_or_none_def)
  have f: "session_flush one_task_session = one_task_session"
    using flush_one_task_session by (simp add: query_autoflush_def one_task_session_def)
  from get_crontab_schedule_reads_only [of one_task_session hourly] q r f
  show ?thesis by (simp add: flush_one_task_session)
qed

text \<open>The store with one schedule satisfies the premise for that schedule.\<close>

theorem get_crontab_schedule_twice_witness:
  "length (query_crontabs (query_autoflush one_task_session) every_minute) \<le> 1 \<and>
   (\<exists>c s1. get_crontab_schedule one_task_session every_minute = Inr (c, s1) \<and>
           get_crontab_schedule s1 every_minute = Inr (c, s1) \<and>
           crontab_fields s1 c = every_minute \<and>
           session_flush s1 = session_flush one_task_session \<and>
           length (query_crontabs s1 every_minute) \<le> 1 \<and>
           (\<forall>r. query_crontabs s1 every_minute = [r] \<longrightarrow> c = InSession r) \<and>
           (query_crontabs s1 every_minute = [] \<longrightarrow> c = Transient every_minute))"
proof -
  have h: "length (query_crontabs (query_autoflush one_task_session) every_minute) \<le> 1"
    by (simp add: flush_one_task_session query_one_task_session_every_minute)
  show ?thesis by (rule conjI [OF h get_crontab_schedule_twice [OF h]])
qed

subsection \<open>Looking a task up\<close>

lemma identity_map_get_Some:
  assumes "identity_map_get ts i = Some t"
  shows "t < length ts" and "is_row (PeriodicTask.sa_state (ts ! t))"
    and "PeriodicTask.id (ts ! t) = Some i"
proof -
  from assms have "t \<in> set (refs_where (\<lambda>t. is_row (PeriodicTask.sa_state t) \<and>
      PeriodicTask.id t = Some i) ts)"
    by (auto simp: identity_map_get_def split: list.splits)
  then show "t < length ts" and "is_row (PeriodicTask.sa_state (ts ! t))"
    and "PeriodicTask.id (ts ! t) = Some i"
    by (simp_all add: refs_where_member)
qed

lemma identity_map_get_update:
  assumes "t < length ts"
    and "is_row (PeriodicTask.sa_state y) = is_row (PeriodicTask.sa_state (ts ! t))"
    and "PeriodicTask.id y = PeriodicTask.id (ts ! t)"
  shows "identity_map_get (ts[t := y]) i = identity_map_get ts i"
  using assms by (simp add: identity_map_get_def refs_where_update)

lemma session_get_hit:
  "identity_map_get (tasks s) i = Some t \<Longrightarrow> session_get s i = (Some t, s)"
  by (simp add: session_get_def)

lemma session_get_Some:
  assumes "session_get s i = (Some t, s0)"
  shows "identity_map_get (tasks s0) i = Some t" and "s0 = s \<or> s0 = query_autoflush s"
  using assms by (auto simp: session_get_def Let_def split: option.splits)

subsection \<open>Enabling and disabling\<close>

lemma task_state_update_same:
  "PeriodicTask.sa_state x = st \<Longrightarrow> x\<lparr>PeriodicTask.sa_state := st\<rparr> = x"
  by (cases x) simp

lemma update_task_enabled_status_found:
  assumes "identity_map_get (tasks s) i = Some t"
  shows "update_task_enabled_status s v i =
           Inr (t, s\<lparr>tasks := (tasks s)[t := (tasks s ! t)\<lparr>enabled := Some v,
                                     PeriodicTask.sa_state := Persistent\<rparr>]\<rparr>)"
proof -
  note t = identity_map_get_Some [OF assms]
  let ?s1 = "modify_task s t (\<lambda>x. x\<lparr>enabled := Some v\<rparr>)"
  have st: "PeriodicTask.sa_state (tasks ?s1 ! t) = PeriodicTask.sa_state (tasks s ! t)"
    using t(1) by (simp add: modify_task_def)
  have add: "session_add ?s1 t =
      Inr (s\<lparr>tasks := (tasks s)[t := (tasks s ! t)\<lparr>enabled := Some v,
                                     PeriodicTask.sa_state := Persistent\<rparr>]\<rparr>)"
  proof (cases "PeriodicTask.sa_state (tasks s ! t) = Persistent")
    case True
    then show ?thesis using st
      by (simp add: session_add_def modify_task_def task_state_update_same)
  next
    case False
    with t(2) have "PeriodicTask.sa_state (tasks s ! t) = MarkedDeleted"
      by (simp add: is_row_def)
    then show ?thesis using st t(1) by (simp add: session_add_def modify_task_def)
  qed
  show ?thesis
    by (simp add: update_task_enabled_status_def session_get_hit [OF assms] add
                  except_NoResultFound_def)
qed

text \<open>
  C6. For a task the session finds under its identifier, with enabled flag \<open>b\<close>:
  the call with \<open>\<not> b\<close> succeeds and leaves the flag at \<open>\<not> b\<close>, the call with \<open>b\<close>
  after it succeeds and leaves the flag at \<open>b\<close>, its original value; after each call
  the task is registered with the session. For a task that was not registered for
  deletion the two calls together restore the whole state.
\<close>

theorem update_task_enabled_status_toggle:
  assumes "identity_map_get (tasks s) i = Some t"
    and "enabled (tasks s ! t) = Some b"
  shows "\<exists>s1 s2.
           update_task_enabled_status s (\<not> b) i = Inr (t, s1) \<and>
           enabled (tasks s1 ! t) = Some (\<not> b) \<and>
           registered (PeriodicTask.sa_state (tasks s1 ! t)) \<and>
           update_task_enabled_status s1 b i = Inr (t, s2) \<and>
           enabled (tasks s2 ! t) = Some b \<and>
           registered (PeriodicTask.sa_state (tasks s2 ! t)) \<and>
           enabled (tasks s2 ! t) = enabled (tasks s ! t) \<and>
           (PeriodicTask.sa_state (tasks s ! t) = Persistent \<longrightarrow> s2 = s)"
proof -
  note t = identity_map_get_Some [OF assms(1)]
  let ?x = "tasks s ! t"
  let ?s1 = "s\<lparr>tasks := (tasks s)[t := ?x\<lparr>enabled := Some (\<not> b),
                                   PeriodicTask.sa_state := Persistent\<rparr>]\<rparr>"
  let ?s2 = "s\<lparr>tasks := (tasks s)[t := ?x\<lparr>enabled := Some b,
                                   PeriodicTask.sa_state := Persistent\<rparr>]\<rparr>"
  have first: "update_task_enabled_status s (\<not> b) i = Inr (t, ?s1)"
    by (rule update_task_enabled_status_found [OF assms(1)])
  have "identity_map_get (tasks ?s1) i = identity_map_get (tasks s) i"
    using t by (simp add: identity_map_get_update is_row_def)
  then have found: "identity_map_get (tasks ?s1) i = Some t" using assms(1) by simp
  have "update_task_enabled_status ?s1 b i =
          Inr (t, ?s1\<lparr>tasks := (tasks ?s1)[t := (tasks ?s1 ! t)\<lparr>enabled := Some b,
                                     PeriodicTask.sa_state := Persistent\<rparr>]\<rparr>)"
    by (rule update_task_enabled_status_found [OF found])
  then have second: "update_task_enabled_status ?s1 b i = Inr (t, ?s2)"
    using t(1) by simp
  have same: "PeriodicTask.sa_state ?x = Persistent \<Longrightarrow> ?s2 = s"
  proof -
    assume "PeriodicTask.sa_state ?x = Persistent"
    with assms(2) have "?x\<lparr>enabled := Some b, PeriodicTask.sa_state := Persistent\<rparr> = ?x"
      by (cases ?x) simp
    then show "?s2 = s" by simp
  qed
  show ?thesis
    apply (rule exI [of _ ?s1], rule exI [of _ ?s2])
    using first second same t(1) assms(2) by (simp add: registered_def)
qed

lemma identity_one_task_session: "identity_map_get (tasks one_task_session) 1 = Some 0"
  by (simp add: identity_map_get_def refs_where_def is_row_def one_task_session_def)

text \<open>The enabled task 1 of the store with one task: disabled, then enabled again.\<close>

theorem update_task_enabled_status_toggle_witness:
  "identity_map_get (tasks one_task_session) 1 = Some 0 \<and>
   enabled (tasks one_task_session ! 0) = Some True \<and>
   (\<exists>s1. update_task_enabled_status one_task_session False 1 = Inr (0, s1) \<and>
          enabled (tasks s1 ! 0) = Some False \<and>
          update_task_enabled_status s1 True 1 = Inr (0, one_task_session))"
proof -
  have e: "enabled (tasks one_task_session ! 0) = Some True"
    by (simp add: one_task_session_def)
  have p: "PeriodicTask.sa_state (tasks one_task_session ! 0) = Persistent"
    by (simp add: one_task_session_def)
  from update_task_enabled_status_toggle [OF identity_one_task_session e] p
  show ?thesis using identity_one_task_session e by auto
qed

subsection \<open>Creating a task\<close>

lemma crontab_fields_extend:
  "Schedule.truncate (Schedule.extend sch
      \<lparr>CrontabSchedule.id = i, CrontabSchedule.sa_state = st\<rparr>) = sch"
  by (simp add: Schedule.truncate_def Schedule.extend_def)

lemma extend_state [simp]:
  "CrontabSchedule.sa_state (Schedule.extend sch
      \<lparr>CrontabSchedule.id = i, CrontabSchedule.sa_state = st\<rparr>) = st"
  by (simp add: Schedule.extend_def)

lemma extend_id [simp]:
  "CrontabSchedule.id (Schedule.extend sch
      \<lparr>CrontabSchedule.id = i, CrontabSchedule.sa_state = st\<rparr>) = i"
  by (simp add: Schedule.extend_def)

lemma same_fields_extend [simp]:
  "same_fields (Schedule.extend sch
      \<lparr>CrontabSchedule.id = i, CrontabSchedule.sa_state = st\<rparr>) x = same_fields sch x"
  by (simp add: Schedule.extend_def same_fields_def)

lemma cascade_crontab_cases:
  assumes "cascade_crontab s c = (r, s2)"
  shows "tasks s2 = tasks s" and "autoflush s2 = autoflush s"
    and "(\<exists>r'. c = InSession r' \<and> r = r' \<and> s2 = s) \<or>
         (\<exists>sch. c = Transient sch \<and> r = length (crontabs s) \<and>
            crontabs s2 = crontabs s @
              [Schedule.extend sch
                 \<lparr>CrontabSchedule.id = None, CrontabSchedule.sa_state = Pending\<rparr>])"
  using assms by (auto simp: cascade_crontab_def split: crontab_object.splits)

lemma cascade_crontab_prefix:
  assumes "cascade_crontab s c = (r, s2)"
  shows "\<exists>new. crontabs s2 = crontabs s @ new"
  using cascade_crontab_cases(3) [OF assms] by auto

lemma get_crontab_schedule_InSession:
  assumes "get_crontab_schedule s sch = Inr (InSession r, s1)"
  shows "r < length (crontabs s1)" and "is_row (CrontabSchedule.sa_state (crontabs s1 ! r))"
    and "same_fields (crontabs s1 ! r) sch"
proof -
  from get_crontab_schedule_Inr(2) [OF assms] have "r \<in> set (query_crontabs s1 sch)" by simp
  then show "r < length (crontabs s1)"
    and "is_row (CrontabSchedule.sa_state (crontabs s1 ! r))"
    and "same_fields (crontabs s1 ! r) sch"
    by (simp_all add: query_crontabs_member)
qed

lemma cascade_crontab_resolved:
  assumes "get_crontab_schedule s sch = Inr (c, s1)" and "cascade_crontab s1 c = (r, s2)"
  shows "r < length (crontabs s2)"
    and "crontab_fields s2 (InSession r) = sch"
    and "registered (CrontabSchedule.sa_state (crontabs s2 ! r)) \<or>
         is_row (CrontabSchedule.sa_state (crontabs s2 ! r))"
proof -
  from cascade_crontab_cases(3) [OF assms(2)]
  have "r < length (crontabs s2) \<and> crontab_fields s2 (InSession r) = sch \<and>
        (registered (CrontabSchedule.sa_state (crontabs s2 ! r)) \<or>
         is_row (CrontabSchedule.sa_state (crontabs s2 ! r)))"
  proof
    assume "\<exists>r'. c = InSession r' \<and> r = r' \<and> s2 = s1"
    then have c: "c = InSession r" and s2: "s2 = s1" by auto
    from get_crontab_schedule_InSession [OF assms(1) [unfolded c]] s2
    show ?thesis by (simp add: crontab_fields_def same_fields_truncate)
  next
    assume "\<exists>x. c = Transient x \<and> r = length (crontabs s1) \<and>
            crontabs s2 = crontabs s1 @
              [Schedule.extend x
                 \<lparr>CrontabSchedule.id = None, CrontabSchedule.sa_state = Pending\<rparr>]"
    then obtain x where c: "c = Transient x" and r: "r = length (crontabs s1)"
      and cs: "crontabs s2 = crontabs s1 @
              [Schedule.extend x
                 \<lparr>CrontabSchedule.id = None, CrontabSchedule.sa_state = Pending\<rparr>]"
      by blast
    from get_crontab_schedule_Inr(2) [OF assms(1)] c have x: "x = sch" by simp
    show ?thesis
      by (simp add: r cs x crontab_fields_def crontab_fields_extend registered_def)
  qed
  then show "r < length (crontabs s2)" and "crontab_fields s2 (InSession r) = sch"
    and "registered (CrontabSchedule.sa_state (crontabs s2 ! r)) \<or>
         is_row (CrontabSchedule.sa_state (crontabs s2 ! r))"
    by simp_all
qed

lemma nth_append_query_crontabs [simp]:
  "(crontabs (query_autoflush s) @ [y]) ! length (crontabs s) = y"
  by (simp add: nth_append)

lemma nth_append_query_tasks [simp]:
  "(tasks (query_autoflush s) @ [y]) ! length (tasks s) = y"
  by (simp add: nth_append)

lemma schedule_task_result:
  assumes "get_crontab_schedule s (schedule st) = Inr (c, s1)" and "json_dumps kw = Inr js"
  shows "schedule_task json_dumps s st kw =
           Inr (session_add_new s1 c (ScheduledTask.name st) (ScheduledTask.task st) js)"
  using assms by (simp add: schedule_task_def)

text \<open>
  C4. \<^verbatim>\<open>schedule_task\<close> returns a new object (a reference no task had before; every
  task object there was is untouched) that is pending in the session, with the name and
  task of the input and the serialised keyword arguments. Its \<open>crontab\<close> is the
  schedule the resolver returned: that very row when one was found, and otherwise the
  transient schedule, now pending in the session as well; in both cases its six fields
  are those of the input's schedule. Premises: at most one stored row has those fields
  (the store's uniqueness requirement), and \<^verbatim>\<open>json.dumps\<close> accepts the arguments.
\<close>

theorem schedule_task_creates:
  assumes "length (query_crontabs (query_autoflush s) (schedule st)) \<le> 1"
    and "json_dumps kw = Inr js"
  shows "\<exists>c s1 t s'.
           get_crontab_schedule s (schedule st) = Inr (c, s1) \<and>
           schedule_task json_dumps s st kw = Inr (t, s') \<and>
           t = length (tasks s1) \<and> tasks s' = tasks s1 @ [tasks s' ! t] \<and>
           PeriodicTask.sa_state (tasks s' ! t) = Pending \<and>
           PeriodicTask.id (tasks s' ! t) = None \<and>
           PeriodicTask.name (tasks s' ! t) = ScheduledTask.name st \<and>
           PeriodicTask.task (tasks s' ! t) = ScheduledTask.task st \<and>
           kwargs (tasks s' ! t) = js \<and>
           (\<forall>r. c = InSession r \<longrightarrow>
              crontab (tasks s' ! t) = r \<and> crontabs s' = crontabs s1) \<and>
           (\<forall>sch. c = Transient sch \<longrightarrow>
              crontab (tasks s' ! t) = length (crontabs s1) \<and>
              crontabs s' = crontabs s1 @ [crontabs s' ! length (crontabs s1)] \<and>
              CrontabSchedule.sa_state (crontabs s' ! length (crontabs s1)) = Pending) \<and>
           crontab (tasks s' ! t) < length (crontabs s') \<and>
           crontab_fields s' (InSession (crontab (tasks s' ! t))) = crontab_fields s1 c \<and>
           crontab_fields s1 c = schedule st"
proof -
  from get_crontab_schedule_returns [OF assms(1)]
  obtain c where c: "get_crontab_schedule s (schedule st) = Inr (c, query_autoflush s)"
    by blast
  let ?s1 = "query_autoflush s"
  obtain r s2 where casc: "cascade_crontab ?s1 c = (r, s2)" by (cases "cascade_crontab ?s1 c")
  let ?new = "\<lparr>PeriodicTask.id = None, name = ScheduledTask.name st,
                task = ScheduledTask.task st, kwargs = js, enabled = None,
                crontab_id = None, crontab = r, PeriodicTask.sa_state = Pending\<rparr>"
  let ?s' = "s2\<lparr>tasks := tasks s2 @ [?new]\<rparr>"
  have ts: "tasks s2 = tasks ?s1" by (rule cascade_crontab_cases(1) [OF casc])
  have res: "schedule_task json_dumps s st kw = Inr (length (tasks ?s1), ?s')"
    by (simp add: schedule_task_result [where json_dumps = json_dumps and kw = kw, OF c assms(2)] session_add_new_def casc ts)
  note rc = cascade_crontab_resolved [OF c casc]
  show ?thesis
    apply (rule exI [of _ c], rule exI [of _ ?s1])
    apply (rule exI [of _ "length (tasks ?s1)"], rule exI [of _ ?s'])
    using c res rc(1,2) get_crontab_schedule_fields [OF c] cascade_crontab_cases(3) [OF casc]
    by (auto simp: ts crontab_fields_def)
qed


text \<open>
  An hourly report scheduled on the store that only has an every-minute schedule: the
  new task is object 1, pending, and refers to a new hourly schedule, object 1.
\<close>

theorem schedule_task_creates_witness:
  "length (query_crontabs (query_autoflush one_task_session) (schedule report_hourly)) \<le> 1 \<and>
   (\<exists>t s'. schedule_task (\<lambda>kw. Inr ''{}'') one_task_session report_hourly () = Inr (t, s') \<and>
      t = 1 \<and> PeriodicTask.sa_state (tasks s' ! t) = Pending \<and>
      PeriodicTask.name (tasks s' ! t) = ''report'' \<and>
      crontab (tasks s' ! t) = 1 \<and>
      crontab_fields s' (InSession (crontab (tasks s' ! t))) = hourly)"
proof -
  have sch: "schedule report_hourly = hourly" by (simp add: report_hourly_def)
  have h: "length (query_crontabs (query_autoflush one_task_session) (schedule report_hourly)) \<le> 1"
    by (simp add: sch flush_one_task_session query_one_task_session_hourly)
  have r: "get_crontab_schedule one_task_session hourly = Inr (Transient hourly, one_task_session)"
    by (simp add: get_crontab_schedule_def flush_one_task_session
                  query_one_task_session_hourly one_or_none_def)
  have n: "ScheduledTask.name report_hourly = ''report''" by (simp add: report_hourly_def)
  have l: "length (tasks one_task_session) = 1" "length (crontabs one_task_session) = 1"
    by (simp_all add: one_task_session_def)
  from schedule_task_creates [of one_task_session report_hourly "\<lambda>kw. Inr ''{}''" "()" "''{}''", OF h]
  show ?thesis using h by (auto simp: sch r n l)
qed

subsection \<open>Updating a task\<close>

lemma persistent_task_query_autoflush:
  assumes "t < length (tasks s)" and "PeriodicTask.sa_state (tasks s ! t) = Persistent"
  shows "\<exists>fk. tasks (query_autoflush s) ! t = (tasks s ! t)\<lparr>crontab_id := fk\<rparr>"
proof (cases "query_autoflush s = s")
  case True
  have "(tasks s ! t)\<lparr>crontab_id := crontab_id (tasks s ! t)\<rparr> = tasks s ! t"
    by (cases "tasks s ! t") simp
  with True show ?thesis by metis
next
  case False
  then have "query_autoflush s = session_flush s" using query_autoflush_cases [of s] by simp
  with tasks_flush_nth [OF assms(1)] assms(2) show ?thesis by auto
qed

lemma persistent_crontab_flush:
  assumes "r < length (crontabs s)" and "CrontabSchedule.sa_state (crontabs s ! r) = Persistent"
  shows "crontabs (session_flush s) ! r = crontabs s ! r"
  using crontabs_flush_nth [OF assms(1)] assms(2) by auto

lemma persistent_crontab_query_autoflush:
  assumes "r < length (crontabs s)" and "CrontabSchedule.sa_state (crontabs s ! r) = Persistent"
  shows "crontabs (query_autoflush s) ! r = crontabs s ! r"
  using persistent_crontab_flush [OF assms] by (simp add: query_autoflush_def)

lemma update_task_found:
  assumes "identity_map_get (tasks s) i = Some t"
    and "PeriodicTask.sa_state (tasks s ! t) = Persistent"
    and "get_crontab_schedule s (schedule st) = Inr (c, s1)"
    and "cascade_crontab s1 c = (r, s2)"
  shows "update_task s st i =
           Inr (t, s2\<lparr>tasks := (tasks s2)[t := (tasks s2 ! t)
                        \<lparr>crontab := r, PeriodicTask.name := ScheduledTask.name st,
                         PeriodicTask.task := ScheduledTask.task st\<rparr>]\<rparr>)"
proof -
  note t = identity_map_get_Some [OF assms(1)]
  have s1: "s1 = query_autoflush s" by (rule get_crontab_schedule_Inr(1) [OF assms(3)])
  have ts: "tasks s2 = tasks s1" by (rule cascade_crontab_cases(1) [OF assms(4)])
  from persistent_task_query_autoflush [OF t(1) assms(2)]
  have st2: "PeriodicTask.sa_state (tasks s2 ! t) = Persistent"
    using assms(2) by (auto simp: ts s1)
  have len: "t < length (tasks s2)" using t(1) by (simp add: ts s1)
  let ?s5 = "s2\<lparr>tasks := (tasks s2)[t := (tasks s2 ! t)
                        \<lparr>crontab := r, PeriodicTask.name := ScheduledTask.name st,
                         PeriodicTask.task := ScheduledTask.task st\<rparr>]\<rparr>"
  have steps: "modify_task (modify_task (set_crontab s1 t c) t
                  (\<lambda>x. x\<lparr>PeriodicTask.name := ScheduledTask.name st\<rparr>)) t
                  (\<lambda>x. x\<lparr>PeriodicTask.task := ScheduledTask.task st\<rparr>) = ?s5"
    using len by (simp add: set_crontab_def assms(4) modify_task_def)
  have add: "session_add ?s5 t = Inr ?s5"
    using len st2 by (simp add: session_add_def)
  show ?thesis
    by (simp add: update_task_def session_get_hit [OF assms(1)] assms(3) Let_def steps add
                  except_NoResultFound_def)
qed

text \<open>
  C7. For a task row the session finds under its identifier: \<^verbatim>\<open>update_task\<close> succeeds,
  the task's \<open>crontab\<close> afterwards is the schedule the resolver returned (the row found,
  or the transient schedule, now pending in the session), with the six fields of the
  new schedule; name and task are those of the input; \<open>kwargs\<close> is what it was. The
  schedule object the task referred to before, if it was a row, is the same object
  afterwards, still a row, and a flush of the resulting state leaves it a row: the
  operation does not remove it, referenced or not. Premise on the store: at most one
  row has the fields asked for.
\<close>

theorem update_task_rebinds:
  assumes "identity_map_get (tasks s) i = Some t"
    and "PeriodicTask.sa_state (tasks s ! t) = Persistent"
    and "length (query_crontabs (query_autoflush s) (schedule st)) \<le> 1"
  shows "\<exists>c s1 s'.
           get_crontab_schedule s (schedule st) = Inr (c, s1) \<and>
           update_task s st i = Inr (t, s') \<and>
           crontab (tasks s' ! t) < length (crontabs s') \<and>
           crontab_fields s' (InSession (crontab (tasks s' ! t))) = schedule st \<and>
           (\<forall>r. c = InSession r \<longrightarrow> crontab (tasks s' ! t) = r) \<and>
           (\<forall>sch. c = Transient sch \<longrightarrow>
              crontab (tasks s' ! t) = length (crontabs s1) \<and>
              CrontabSchedule.sa_state (crontabs s' ! length (crontabs s1)) = Pending) \<and>
           PeriodicTask.name (tasks s' ! t) = ScheduledTask.name st \<and>
           PeriodicTask.task (tasks s' ! t) = ScheduledTask.task st \<and>
           kwargs (tasks s' ! t) = kwargs (tasks s ! t) \<and>
           (crontab (tasks s ! t) < length (crontabs s) \<and>
            CrontabSchedule.sa_state (crontabs s ! crontab (tasks s ! t)) = Persistent \<longrightarrow>
              crontabs s' ! crontab (tasks s ! t) = crontabs s ! crontab (tasks s ! t) \<and>
              crontabs (session_flush s') ! crontab (tasks s ! t) =
                crontabs s ! crontab (tasks s ! t))"
proof -
  note t = identity_map_get_Some [OF assms(1)]
  let ?s1 = "query_autoflush s"
  from get_crontab_schedule_returns [OF assms(3)]
  obtain c where c: "get_crontab_schedule s (schedule st) = Inr (c, ?s1)" by blast
  obtain r s2 where casc: "cascade_crontab ?s1 c = (r, s2)" by (cases "cascade_crontab ?s1 c")
  let ?s' = "s2\<lparr>tasks := (tasks s2)[t := (tasks s2 ! t)
                        \<lparr>crontab := r, PeriodicTask.name := ScheduledTask.name st,
                         PeriodicTask.task := ScheduledTask.task st\<rparr>]\<rparr>"
  have res: "update_task s st i = Inr (t, ?s')"
    by (rule update_task_found [OF assms(1,2) c casc])
  have ts: "tasks s2 = tasks ?s1" by (rule cascade_crontab_cases(1) [OF casc])
  have len: "t < length (tasks s2)" using t(1) by (simp add: ts)
  note rc = cascade_crontab_resolved [OF c casc]
  from persistent_task_query_autoflush [OF t(1) assms(2)]
  obtain fk where fk: "tasks ?s1 ! t = (tasks s ! t)\<lparr>crontab_id := fk\<rparr>" by blast
  have new: "tasks ?s' ! t = (tasks s ! t)
        \<lparr>crontab_id := fk, crontab := r, PeriodicTask.name := ScheduledTask.name st,
         PeriodicTask.task := ScheduledTask.task st\<rparr>"
    using len by (simp add: ts fk)
  have old: "crontabs ?s' ! old = crontabs s ! old \<and>
             crontabs (session_flush ?s') ! old = crontabs s ! old"
    if o: "old < length (crontabs s)"
      and p: "CrontabSchedule.sa_state (crontabs s ! old) = Persistent" for old
  proof -
    from cascade_crontab_prefix [OF casc]
    obtain new where cs: "crontabs s2 = crontabs ?s1 @ new" by blast
    have a: "crontabs ?s' ! old = crontabs s ! old"
      using o by (simp add: cs nth_append persistent_crontab_query_autoflush [OF o p])
    have "old < length (crontabs ?s')" using o by (simp add: cs)
    from persistent_crontab_flush [OF this] a p
    show ?thesis by simp
  qed
  have cases: "(\<forall>r'. c = InSession r' \<longrightarrow> r = r') \<and>
        (\<forall>sch. c = Transient sch \<longrightarrow> r = length (crontabs ?s1) \<and>
            CrontabSchedule.sa_state (crontabs s2 ! length (crontabs ?s1)) = Pending)"
    using cascade_crontab_cases(3) [OF casc] by auto
  show ?thesis
    apply (rule exI [of _ c], rule exI [of _ ?s1], rule exI [of _ ?s'])
    apply (simp only: c res new)
    using rc(1,2) cases old by (simp add: crontab_fields_def)
qed

text \<open>
  C10. \<^verbatim>\<open>update_task\<close> leaves the identifier and the enabled flag of the task as they
  were: the task afterwards is the task before with a new \<open>crontab\<close> (and the
  foreign-key column that belongs to it), name and task, and nothing else changed.
\<close>

theorem update_task_keeps_id_and_enabled:
  assumes "identity_map_get (tasks s) i = Some t"
    and "PeriodicTask.sa_state (tasks s ! t) = Persistent"
    and "length (query_crontabs (query_autoflush s) (schedule st)) \<le> 1"
  shows "\<exists>s' r fk.
           update_task s st i = Inr (t, s') \<and>
           PeriodicTask.id (tasks s' ! t) = PeriodicTask.id (tasks s ! t) \<and>
           enabled (tasks s' ! t) = enabled (tasks s ! t) \<and>
           tasks s' ! t = (tasks s ! t)
             \<lparr>crontab := r, crontab_id := fk,
              PeriodicTask.name := ScheduledTask.name st,
              PeriodicTask.task := ScheduledTask.task st\<rparr>"
proof -
  note t = identity_map_get_Some [OF assms(1)]
  let ?s1 = "query_autoflush s"
  from get_crontab_schedule_returns [OF assms(3)]
  obtain c where c: "get_crontab_schedule s (schedule st) = Inr (c, ?s1)" by blast
  obtain r s2 where casc: "cascade_crontab ?s1 c = (r, s2)" by (cases "cascade_crontab ?s1 c")
  let ?s' = "s2\<lparr>tasks := (tasks s2)[t := (tasks s2 ! t)
                        \<lparr>crontab := r, PeriodicTask.name := ScheduledTask.name st,
                         PeriodicTask.task := ScheduledTask.task st\<rparr>]\<rparr>"
  have res: "update_task s st i = Inr (t, ?s')"
    by (rule update_task_found [OF assms(1,2) c casc])
  have ts: "tasks s2 = tasks ?s1" by (rule cascade_crontab_cases(1) [OF casc])
  have len: "t < length (tasks s2)" using t(1) by (simp add: ts)
  from persistent_task_query_autoflush [OF t(1) assms(2)]
  obtain fk where fk: "tasks ?s1 ! t = (tasks s ! t)\<lparr>crontab_id := fk\<rparr>" by blast
  have new: "tasks ?s' ! t = (tasks s ! t)
        \<lparr>crontab := r, crontab_id := fk, PeriodicTask.name := ScheduledTask.name st,
         PeriodicTask.task := ScheduledTask.task st\<rparr>"
    using len by (simp add: ts fk)
  show ?thesis
    apply (rule exI [of _ ?s'], rule exI [of _ r], rule exI [of _ fk])
    by (simp only: res new) simp
qed


lemma resolve_hourly_one_task_session:
  "get_crontab_schedule one_task_session hourly = Inr (Transient hourly, one_task_session)"
  by (simp add: get_crontab_schedule_def flush_one_task_session
                query_one_task_session_hourly one_or_none_def)

lemma unique_hourly_one_task_session:
  "length (query_crontabs (query_autoflush one_task_session) (schedule report_hourly)) \<le> 1"
  by (simp add: report_hourly_def flush_one_task_session query_one_task_session_hourly)

lemma persistent_one_task_session:
  "PeriodicTask.sa_state (tasks one_task_session ! 0) = Persistent"
  by (simp add: one_task_session_def)

text \<open>
  The only task of the store moved from every minute to hourly: it refers to a new
  schedule object, and the every-minute row, which no task refers to any more, stays.
\<close>

theorem update_task_rebinds_witness:
  "identity_map_get (tasks one_task_session) 1 = Some 0 \<and>
   PeriodicTask.sa_state (tasks one_task_session ! 0) = Persistent \<and>
   length (query_crontabs (query_autoflush one_task_session) (schedule report_hourly)) \<le> 1 \<and>
   (\<exists>s'. update_task one_task_session report_hourly 1 = Inr (0, s') \<and>
      crontab (tasks s' ! 0) = 1 \<and>
      crontab_fields s' (InSession 1) = hourly \<and>
      PeriodicTask.name (tasks s' ! 0) = ''report'' \<and>
      PeriodicTask.task (tasks s' ! 0) = ''jobs.report'' \<and>
      kwargs (tasks s' ! 0) = ''{}'' \<and>
      crontabs s' ! 0 = crontabs one_task_session ! 0 \<and>
      CrontabSchedule.sa_state (crontabs (session_flush s') ! 0) = Persistent)"
proof -
  have v: "schedule report_hourly = hourly" "ScheduledTask.name report_hourly = ''report''"
    "ScheduledTask.task report_hourly = ''jobs.report''"
    by (simp_all add: report_hourly_def)
  have o: "crontab (tasks one_task_session ! 0) = 0" "length (crontabs one_task_session) = 1"
    "CrontabSchedule.sa_state (crontabs one_task_session ! 0) = Persistent"
    "kwargs (tasks one_task_session ! 0) = ''{}''"
    by (simp_all add: one_task_session_def Schedule.extend_def)
  from update_task_rebinds [OF identity_one_task_session persistent_one_task_session
      unique_hourly_one_task_session]
  show ?thesis
    using identity_one_task_session persistent_one_task_session unique_hourly_one_task_session
    by (auto simp: v o resolve_hourly_one_task_session)
qed

text \<open>Task 1 of the store with one task keeps identifier 1 and stays enabled.\<close>

theorem update_task_keeps_id_and_enabled_witness:
  "identity_map_get (tasks one_task_session) 1 = Some 0 \<and>
   PeriodicTask.sa_state (tasks one_task_session ! 0) = Persistent \<and>
   length (query_crontabs (query_autoflush one_task_session) (schedule report_hourly)) \<le> 1 \<and>
   (\<exists>s'. update_task one_task_session report_hourly 1 = Inr (0, s') \<and>
      PeriodicTask.id (tasks s' ! 0) = Some 1 \<and> enabled (tasks s' ! 0) = Some True)"
proof -
  have o: "PeriodicTask.id (tasks one_task_session ! 0) = Some 1"
    "enabled (tasks one_task_session ! 0) = Some True"
    by (simp_all add: one_task_session_def)
  from update_task_keeps_id_and_enabled [OF identity_one_task_session
      persistent_one_task_session unique_hourly_one_task_session]
  show ?thesis
    using identity_one_task_session persistent_one_task_session unique_hourly_one_task_session
    by (auto simp: o)
qed

subsection \<open>Deleting a task\<close>

lemma flushed_crontab_state:
  assumes "flushed s" and "r < length (crontabs s)"
  shows "CrontabSchedule.sa_state (crontabs s ! r) = Persistent \<or>
         CrontabSchedule.sa_state (crontabs s ! r) = Deleted"
  using assms by (simp add: flushed_def)

lemma session_delete_task_row:
  assumes "t < length (tasks s)" and "is_row (PeriodicTask.sa_state (tasks s ! t))"
  shows "session_delete_task s t =
           Inr (s\<lparr>tasks := (tasks s)[t := (tasks s ! t)
                                \<lparr>PeriodicTask.sa_state := MarkedDeleted\<rparr>]\<rparr>)"
proof (cases "PeriodicTask.sa_state (tasks s ! t) = Persistent")
  case True
  then show ?thesis by (simp add: session_delete_task_def modify_task_def)
next
  case False
  with assms(2) have m: "PeriodicTask.sa_state (tasks s ! t) = MarkedDeleted"
    by (simp add: is_row_def)
  then show ?thesis
    by (simp add: session_delete_task_def task_state_update_same)
qed

lemma session_delete_crontab_flushed:
  assumes "flushed s" and "r < length (crontabs s)"
  shows "session_delete_crontab s r =
           Inr (if CrontabSchedule.sa_state (crontabs s ! r) = Persistent
                then modify_crontab s r (\<lambda>x. x\<lparr>CrontabSchedule.sa_state := MarkedDeleted\<rparr>)
                else s)"
  using flushed_crontab_state [OF assms] by (auto simp: session_delete_crontab_def)

lemma crontab_is_used_flushed:
  assumes "flushed s" and "has_primary_key s c"
  shows "crontab_is_used s c =
           Inr (\<exists>u < length (tasks s). references (primary_key s c) (tasks s ! u), s)"
  by (simp add: crontab_is_used_def query_autoflush_unchanged assms refs_where_nonempty_iff)

lemma has_primary_key_flushed:
  assumes "flushed s" and "r < length (crontabs s)"
  shows "has_primary_key s (InSession r)"
  using flushed_crontab_state [OF assms] assms(2) by (auto simp: has_primary_key_def)

lemma delete_task_found:
  assumes "session_get s i = (Some t, s0)"
    and "crontab (tasks s0 ! t) < length (crontabs s0)"
  shows "delete_task s i =
     (let s3 = session_flush
                 (s0\<lparr>tasks := (tasks s0)[t := (tasks s0 ! t)
                                   \<lparr>PeriodicTask.sa_state := MarkedDeleted\<rparr>]\<rparr>);
          c = crontab (tasks s0 ! t)
      in Inr (t,
           if \<exists>u < length (tasks s3). references (crontab_pk (crontabs s3) c) (tasks s3 ! u)
           then s3
           else if CrontabSchedule.sa_state (crontabs s3 ! c) = Persistent
           then modify_crontab s3 c (\<lambda>x. x\<lparr>CrontabSchedule.sa_state := MarkedDeleted\<rparr>)
           else s3))"
proof -
  note t = identity_map_get_Some [OF session_get_Some(1) [OF assms(1)]]
  let ?s2 = "s0\<lparr>tasks := (tasks s0)[t := (tasks s0 ! t)
                                   \<lparr>PeriodicTask.sa_state := MarkedDeleted\<rparr>]\<rparr>"
  let ?s3 = "session_flush ?s2"
  let ?c = "crontab (tasks s0 ! t)"
  have del: "session_delete_task s0 t = Inr ?s2"
    by (rule session_delete_task_row [OF t(1,2)])
  have t2: "t < length (tasks ?s2)" using t(1) by simp
  have "PeriodicTask.sa_state (tasks ?s2 ! t) = MarkedDeleted" using t(1) by simp
  with tasks_flush_nth [OF t2]
  have t3: "tasks ?s3 ! t = (tasks ?s2 ! t)\<lparr>PeriodicTask.sa_state := Deleted\<rparr>" by auto
  have c3: "crontab (tasks ?s3 ! t) = ?c" using t(1) by (simp add: t3)
  have f: "flushed ?s3" by (rule flushed_session_flush)
  have len: "?c < length (crontabs ?s3)" using assms(2) by simp
  have k: "has_primary_key ?s3 (InSession ?c)" by (rule has_primary_key_flushed [OF f len])
  show ?thesis
  proof (cases "\<exists>u < length (tasks ?s3).
                  references (crontab_pk (crontabs ?s3) ?c) (tasks ?s3 ! u)")
    case True
    then have "crontab_is_used ?s3 (InSession ?c) = Inr (True, ?s3)"
      by (simp add: crontab_is_used_flushed [OF f k] primary_key_def)
    then show ?thesis
      unfolding delete_task_def using True
      by (simp add: assms(1) del Let_def c3 except_NoResultFound_def)
  next
    case False
    then have "crontab_is_used ?s3 (InSession ?c) = Inr (False, ?s3)"
      by (simp add: crontab_is_used_flushed [OF f k] primary_key_def)
    then show ?thesis
      unfolding delete_task_def using False
      by (auto simp: assms(1) del Let_def c3 session_delete_crontab_flushed [OF f len]
                     except_NoResultFound_def)
  qed
qed



lemma get_one_task_session: "session_get one_task_session 1 = (Some 0, one_task_session)"
  by (rule session_get_hit [OF identity_one_task_session])

lemma identity_two_task_session: "identity_map_get (tasks two_task_session) 1 = Some 0"
  by (simp add: identity_map_get_def refs_where_def is_row_def two_task_session_def)

lemma get_two_task_session: "session_get two_task_session 1 = (Some 0, two_task_session)"
  by (rule session_get_hit [OF identity_two_task_session])

lemma delete_one_task_session: "delete_task one_task_session 1 = Inr (0, one_task_deleted)"
  unfolding delete_task_def get_one_task_session
  by (simp add: session_delete_task_def modify_task_def
        session_flush_def fresh_id_def expunge_crontab_def expunge_task_def crontab_pk_def
        crontab_is_used_def query_autoflush_def refs_where_def references_def primary_key_def
        has_primary_key_def is_row_def session_delete_crontab_def modify_crontab_def except_NoResultFound_def
        one_task_session_def one_task_deleted_def every_minute_def Schedule.extend_def Let_def)

lemma delete_two_task_session: "delete_task two_task_session 1 = Inr (0, two_task_deleted)"
  unfolding delete_task_def get_two_task_session
  by (simp add: session_delete_task_def modify_task_def
        session_flush_def fresh_id_def expunge_crontab_def expunge_task_def crontab_pk_def
        crontab_is_used_def query_autoflush_def refs_where_def references_def primary_key_def
        has_primary_key_def is_row_def session_delete_crontab_def modify_crontab_def except_NoResultFound_def
        two_task_session_def two_task_deleted_def every_minute_def Schedule.extend_def Let_def)


subsection \<open>Two tasks with one name\<close>

lemma same_fields_trans:
  "same_fields a b \<Longrightarrow> same_fields c b = same_fields c a"
  by (auto simp: same_fields_def)

lemma flushed_no_pending:
  "flushed s \<Longrightarrow> \<forall>c \<in> set (crontabs s). CrontabSchedule.sa_state c \<noteq> Pending"
  by (auto simp: flushed_def)

lemma flushed_expunge_crontabs:
  "flushed s \<Longrightarrow> map expunge_crontab (crontabs s) = crontabs s"
  by (intro map_idI) (auto simp: flushed_def expunge_crontab_def)

lemma crontabs_flush_append:
  assumes "flushed s1" and "crontabs s' = crontabs s1 @ extra"
  shows "crontabs (session_flush s') =
           crontabs s1 @ map expunge_crontab
             (insert_crontabs (fresh_id (map CrontabSchedule.id (crontabs s'))) extra)"
  by (simp add: session_flush_def Let_def assms(2)
                insert_crontabs_append [OF flushed_no_pending [OF assms(1)]]
                flushed_expunge_crontabs [OF assms(1)])

lemma session_add_new_shape:
  assumes "session_add_new s1 c n k js = (t, s')"
  shows "autoflush s' = autoflush s1" and "t = length (tasks s1)"
    and "\<exists>new. tasks s' = tasks s1 @ [new] \<and> PeriodicTask.sa_state new = Pending \<and>
           PeriodicTask.name new = n"
    and "(\<exists>r. c = InSession r \<and> crontabs s' = crontabs s1) \<or>
         (\<exists>sch. c = Transient sch \<and>
            crontabs s' = crontabs s1 @
              [Schedule.extend sch
                 \<lparr>CrontabSchedule.id = None, CrontabSchedule.sa_state = Pending\<rparr>])"
  using assms
  by (auto simp: session_add_new_def cascade_crontab_def split: crontab_object.splits)

lemma second_resolve_unique:
  assumes u2: "length (query_crontabs (query_autoflush s) sch2) \<le> 1"
    and r: "get_crontab_schedule s sch1 = Inr (c, s1)"
    and a: "session_add_new s1 c n k js = (t, s')"
  shows "length (query_crontabs (query_autoflush s') sch2) \<le> 1"
proof -
  have s1: "s1 = query_autoflush s" by (rule get_crontab_schedule_Inr(1) [OF r])
  note shape = session_add_new_shape [OF a]
  let ?P = "\<lambda>c. is_row (CrontabSchedule.sa_state c) \<and> same_fields c sch2"
  let ?p = "\<lambda>sch. Schedule.extend sch
                 \<lparr>CrontabSchedule.id = None, CrontabSchedule.sa_state = Pending\<rparr>"
  show ?thesis
  proof (cases "autoflush s")
    case False
    then have q: "query_autoflush s = s" "query_autoflush s' = s'"
      using shape(1) by (simp_all add: query_autoflush_def s1)
    from shape(4) have "query_crontabs s' sch2 = query_crontabs s sch2"
      by (auto simp: query_crontabs_def refs_where_snoc s1 q(1) is_row_def)
    with u2 show ?thesis by (simp add: q)
  next
    case True
    then have q: "query_autoflush s = session_flush s" "query_autoflush s' = session_flush s'"
      using shape(1) by (simp_all add: query_autoflush_def s1)
    have f: "flushed s1" by (simp add: s1 q(1) flushed_session_flush)
    from shape(4) show ?thesis
    proof
      assume "\<exists>r. c = InSession r \<and> crontabs s' = crontabs s1"
      then have "crontabs s' = crontabs s1 @ []" by simp
      from crontabs_flush_append [OF f this]
      have "crontabs (session_flush s') = crontabs s1" by simp
      then have "query_crontabs (session_flush s') sch2 = query_crontabs s1 sch2"
        by (simp add: query_crontabs_def)
      with u2 show ?thesis by (simp add: q(2) s1)
    next
      assume "\<exists>sch. c = Transient sch \<and> crontabs s' = crontabs s1 @ [?p sch]"
      then obtain sch where c: "c = Transient sch" and cs: "crontabs s' = crontabs s1 @ [?p sch]"
        by blast
      from get_crontab_schedule_Inr(2) [OF r] c
      have sch: "sch = sch1" and none: "query_crontabs s1 sch1 = []" by simp_all
      from crontabs_flush_append [OF f cs]
      obtain k where fl: "crontabs (session_flush s') =
          crontabs s1 @ [(?p sch)\<lparr>CrontabSchedule.id := Some k,
                                   CrontabSchedule.sa_state := Persistent\<rparr>]"
        by (simp add: expunge_crontab_def)
      have q2: "query_crontabs (session_flush s') sch2 =
          query_crontabs s1 sch2 @ (if same_fields sch1 sch2 then [length (crontabs s1)] else [])"
        by (simp add: query_crontabs_def fl refs_where_snoc is_row_def sch same_fields_def
                      Schedule.extend_def)
      show ?thesis
      proof (cases "same_fields sch1 sch2")
        case True
        have "query_crontabs s1 sch2 = query_crontabs s1 sch1"
          unfolding query_crontabs_def
          by (rule refs_where_cong) (simp add: same_fields_trans [OF True])
        with none True show ?thesis by (simp add: q(2) q2)
      next
        case False
        with u2 show ?thesis by (simp add: q(2) q2 s1)
      qed
    qed
  qed
qed


lemma registered_task_query_autoflush:
  assumes "t < length (tasks s)" and "registered (PeriodicTask.sa_state (tasks s ! t))"
  shows "registered (PeriodicTask.sa_state (tasks (query_autoflush s) ! t)) \<and>
         PeriodicTask.name (tasks (query_autoflush s) ! t) = PeriodicTask.name (tasks s ! t)"
proof (cases "query_autoflush s = s")
  case True
  with assms(2) show ?thesis by simp
next
  case False
  then have "query_autoflush s = session_flush s" using query_autoflush_cases [of s] by simp
  with tasks_flush_nth [OF assms(1)] assms(2) show ?thesis
    by (auto simp: registered_def)
qed

text \<open>
  C9. Two \<^verbatim>\<open>schedule_task\<close> calls whose inputs have the same name both succeed, the
  second on the state the first left, and afterwards two different task objects with
  that name are registered with the session: the name is never looked up. Premises: for
  each of the two schedules the store holds at most one row with its fields before the
  first call (that this still holds for the second call is part of the proof), and
  \<^verbatim>\<open>json.dumps\<close> accepts both argument bundles.
\<close>

theorem schedule_task_allows_duplicate_names:
  assumes "ScheduledTask.name st1 = ScheduledTask.name st2"
    and "length (query_crontabs (query_autoflush s) (schedule st1)) \<le> 1"
    and "length (query_crontabs (query_autoflush s) (schedule st2)) \<le> 1"
    and "json_dumps kw1 = Inr js1" and "json_dumps kw2 = Inr js2"
  shows "\<exists>t1 s1 t2 s2.
           schedule_task json_dumps s st1 kw1 = Inr (t1, s1) \<and>
           schedule_task json_dumps s1 st2 kw2 = Inr (t2, s2) \<and>
           t1 \<noteq> t2 \<and> t1 < length (tasks s2) \<and> t2 < length (tasks s2) \<and>
           registered (PeriodicTask.sa_state (tasks s2 ! t1)) \<and>
           registered (PeriodicTask.sa_state (tasks s2 ! t2)) \<and>
           PeriodicTask.name (tasks s2 ! t1) = ScheduledTask.name st1 \<and>
           PeriodicTask.name (tasks s2 ! t2) = ScheduledTask.name st1"
proof -
  from get_crontab_schedule_returns [OF assms(2)]
  obtain c1 where r1: "get_crontab_schedule s (schedule st1) = Inr (c1, query_autoflush s)"
    by blast
  obtain t1 s1 where a1: "session_add_new (query_autoflush s) c1 (ScheduledTask.name st1)
       (ScheduledTask.task st1) js1 = (t1, s1)"
    by (cases "session_add_new (query_autoflush s) c1 (ScheduledTask.name st1)
       (ScheduledTask.task st1) js1")
  have first: "schedule_task json_dumps s st1 kw1 = Inr (t1, s1)"
    by (simp add: schedule_task_result [where json_dumps = json_dumps and kw = kw1,
                                         OF r1 assms(4)] a1)
  note sh1 = session_add_new_shape [OF a1]
  from sh1(3) obtain new1 where n1: "tasks s1 = tasks (query_autoflush s) @ [new1]"
    and p1: "PeriodicTask.sa_state new1 = Pending"
    and m1: "PeriodicTask.name new1 = ScheduledTask.name st1" by blast
  have t1: "t1 = length (tasks s)" using sh1(2) by simp
  have at1: "tasks s1 ! t1 = new1" by (simp add: n1 t1)
  have len1: "t1 < length (tasks s1)" by (simp add: n1 t1)
  have u: "length (query_crontabs (query_autoflush s1) (schedule st2)) \<le> 1"
    by (rule second_resolve_unique [OF assms(3) r1 a1])
  from get_crontab_schedule_returns [OF u]
  obtain c2 where r2: "get_crontab_schedule s1 (schedule st2) = Inr (c2, query_autoflush s1)"
    by blast
  obtain t2 s2 where a2: "session_add_new (query_autoflush s1) c2 (ScheduledTask.name st2)
       (ScheduledTask.task st2) js2 = (t2, s2)"
    by (cases "session_add_new (query_autoflush s1) c2 (ScheduledTask.name st2)
       (ScheduledTask.task st2) js2")
  have second: "schedule_task json_dumps s1 st2 kw2 = Inr (t2, s2)"
    by (simp add: schedule_task_result [where json_dumps = json_dumps and kw = kw2,
                                         OF r2 assms(5)] a2)
  note sh2 = session_add_new_shape [OF a2]
  from sh2(3) obtain new2 where n2: "tasks s2 = tasks (query_autoflush s1) @ [new2]"
    and p2: "PeriodicTask.sa_state new2 = Pending"
    and m2: "PeriodicTask.name new2 = ScheduledTask.name st2" by blast
  have t2: "t2 = length (tasks s1)" using sh2(2) by simp
  have at2: "tasks s2 ! t2 = new2" by (simp add: n2 t2)
  have old: "tasks s2 ! t1 = tasks (query_autoflush s1) ! t1"
    using len1 by (simp add: n2 nth_append)
  from registered_task_query_autoflush [OF len1] p1 at1
  have reg1: "registered (PeriodicTask.sa_state (tasks s2 ! t1))"
    and name1: "PeriodicTask.name (tasks s2 ! t1) = ScheduledTask.name st1"
    by (simp_all add: old registered_def m1)
  have "schedule_task json_dumps s st1 kw1 = Inr (t1, s1) \<and>
        schedule_task json_dumps s1 st2 kw2 = Inr (t2, s2) \<and>
        t1 \<noteq> t2 \<and> t1 < length (tasks s2) \<and> t2 < length (tasks s2) \<and>
        registered (PeriodicTask.sa_state (tasks s2 ! t1)) \<and>
        registered (PeriodicTask.sa_state (tasks s2 ! t2)) \<and>
        PeriodicTask.name (tasks s2 ! t1) = ScheduledTask.name st1 \<and>
        PeriodicTask.name (tasks s2 ! t2) = ScheduledTask.name st1"
    using first second len1 reg1 name1
    by (simp add: at2 p2 m2 assms(1) registered_def) (simp add: t2 n2)
  then show ?thesis by blast
qed


text \<open>
  Two tasks named \<open>report\<close>, one hourly and one every minute, scheduled one after the
  other on the store with one task.
\<close>

theorem schedule_task_allows_duplicate_names_witness:
  "ScheduledTask.name report_hourly = ScheduledTask.name report_every_minute \<and>
   length (query_crontabs (query_autoflush one_task_session) (schedule report_hourly)) \<le> 1 \<and>
   length (query_crontabs (query_autoflush one_task_session) (schedule report_every_minute)) \<le> 1 \<and>
   (\<exists>t1 s1 t2 s2.
      schedule_task (\<lambda>kw. Inr ''{}'') one_task_session report_hourly () = Inr (t1, s1) \<and>
      schedule_task (\<lambda>kw. Inr ''{}'') s1 report_every_minute () = Inr (t2, s2) \<and>
      t1 \<noteq> t2 \<and>
      PeriodicTask.name (tasks s2 ! t1) = ''report'' \<and>
      PeriodicTask.name (tasks s2 ! t2) = ''report'')"
proof -
  have n: "ScheduledTask.name report_hourly = ScheduledTask.name report_every_minute"
    by (simp add: report_hourly_def report_every_minute_def)
  have v: "ScheduledTask.name report_hourly = ''report''" by (simp add: report_hourly_def)
  have u2: "length (query_crontabs (query_autoflush one_task_session)
                      (schedule report_every_minute)) \<le> 1"
    by (simp add: report_every_minute_def flush_one_task_session
                  query_one_task_session_every_minute)
  have j: "(\<lambda>kw::unit. Inr ''{}'' :: error + string) () = Inr ''{}''" by simp
  from schedule_task_allows_duplicate_names
         [where json_dumps = "\<lambda>kw. Inr ''{}''" and ?kw1.0 = "()" and ?kw2.0 = "()",
          OF n unique_hourly_one_task_session u2 j j]
  obtain t1 s1 t2 s2 where
    "schedule_task (\<lambda>kw. Inr ''{}'') one_task_session report_hourly () = Inr (t1, s1)"
    "schedule_task (\<lambda>kw. Inr ''{}'') s1 report_every_minute () = Inr (t2, s2)"
    "t1 \<noteq> t2"
    "PeriodicTask.name (tasks s2 ! t1) = ''report''"
    "PeriodicTask.name (tasks s2 ! t2) = ''report''"
    unfolding v by blast
  then have "\<exists>t1 s1 t2 s2.
      schedule_task (\<lambda>kw. Inr ''{}'') one_task_session report_hourly () = Inr (t1, s1) \<and>
      schedule_task (\<lambda>kw. Inr ''{}'') s1 report_every_minute () = Inr (t2, s2) \<and>
      t1 \<noteq> t2 \<and>
      PeriodicTask.name (tasks s2 ! t1) = ''report'' \<and>
      PeriodicTask.name (tasks s2 ! t2) = ''report''"
    by blast
  with n unique_hourly_one_task_session u2 show ?thesis by (intro conjI)
qed

subsection \<open>What a query flushes\<close>

lemma flush_one_task_scheduled:
  "query_autoflush one_task_scheduled = one_task_scheduled_flushed"
  by (simp add: query_autoflush_def session_flush_def fresh_id_def expunge_crontab_def
      expunge_task_def crontab_pk_def one_task_scheduled_def one_task_scheduled_flushed_def
      every_minute_def hourly_def Schedule.extend_def)

lemma schedule_report_one_task_session:
  "schedule_task (\<lambda>kw. Inr ''{}'') one_task_session report_hourly () =
     Inr (1, one_task_scheduled)"
  by (simp add: schedule_task_def resolve_hourly_one_task_session report_hourly_def
                session_add_new_def cascade_crontab_def)
     (simp add: one_task_session_def one_task_scheduled_def)

text \<open>
  C8 as stated fails where work is waiting for a flush. On the state \<^verbatim>\<open>schedule_task\<close>
  leaves (a pending hourly schedule and its pending task, \<open>autoflush\<close> set), resolving
  the hourly schedule flushes first: it returns the schedule, now a row, and a state
  that is not the state it was given.
\<close>

theorem get_crontab_schedule_flushes_counterexample:
  "get_crontab_schedule one_task_scheduled hourly =
     Inr (InSession 1, one_task_scheduled_flushed) \<and>
   one_task_scheduled_flushed \<noteq> one_task_scheduled"
proof
  have q: "query_crontabs one_task_scheduled_flushed hourly = [1]"
    by (simp add: query_crontabs_def refs_where_def is_row_def same_fields_def
                  one_task_scheduled_flushed_def every_minute_def hourly_def
                  Schedule.extend_def)
  show "get_crontab_schedule one_task_scheduled hourly =
     Inr (InSession 1, one_task_scheduled_flushed)"
    by (simp add: get_crontab_schedule_def flush_one_task_scheduled q one_or_none_def)
  show "one_task_scheduled_flushed \<noteq> one_task_scheduled"
    by (simp add: one_task_scheduled_flushed_def one_task_scheduled_def Schedule.extend_def)
qed

subsection \<open>Orphan detection, with its failure\<close>

lemma crontab_is_used_cases:
  "crontab_is_used s c =
     (if has_primary_key (query_autoflush s) c
      then Inr (\<exists>t < length (tasks (query_autoflush s)).
                  references (primary_key (query_autoflush s) c) (tasks (query_autoflush s) ! t),
                query_autoflush s)
      else Inl StatementError)"
  by (simp add: crontab_is_used_def Let_def refs_where_nonempty_iff)

lemma references_object:
  assumes f: "flushed s" and k: "well_keyed s" and h: "has_primary_key s (InSession r)"
  shows "(\<exists>t < length (tasks s). references (primary_key s (InSession r)) (tasks s ! t)) \<longleftrightarrow>
         (\<exists>t < length (tasks s). PeriodicTask.sa_state (tasks s ! t) = Persistent \<and>
                                    crontab (tasks s ! t) = r)"
proof -
  from h have r: "r < length (crontabs s)"
    and np: "CrontabSchedule.sa_state (crontabs s ! r) \<noteq> Pending"
    by (simp_all add: has_primary_key_def)
  from k r np obtain key where key: "CrontabSchedule.id (crontabs s ! r) = Some key"
    by (auto simp: well_keyed_def)
  have pk: "primary_key s (InSession r) = Some key"
    using r key by (simp add: primary_key_def crontab_pk_def)
  have row: "PeriodicTask.sa_state (tasks s ! t) = Persistent \<Longrightarrow>
             crontab_id (tasks s ! t) = crontab_pk (crontabs s) (crontab (tasks s ! t))"
    if "t < length (tasks s)" for t
    using f that by (auto simp: flushed_def)
  have st: "PeriodicTask.sa_state (tasks s ! t) = Persistent \<or>
            PeriodicTask.sa_state (tasks s ! t) = Deleted"
    if "t < length (tasks s)" for t
    using f that by (auto simp: flushed_def)
  show ?thesis
  proof
    assume "\<exists>t < length (tasks s). references (primary_key s (InSession r)) (tasks s ! t)"
    then obtain t where t: "t < length (tasks s)"
      and ref: "references (Some key) (tasks s ! t)" by (auto simp: pk)
    from ref st [OF t] have p: "PeriodicTask.sa_state (tasks s ! t) = Persistent"
      by (auto simp: references_def is_row_def)
    from ref have "crontab_id (tasks s ! t) = Some key" by (simp add: references_def)
    with row [OF t p] have "crontab_pk (crontabs s) (crontab (tasks s ! t)) = Some key" by simp
    then have c: "crontab (tasks s ! t) < length (crontabs s)"
      and "CrontabSchedule.id (crontabs s ! crontab (tasks s ! t)) = Some key"
      by (auto simp: crontab_pk_def split: if_splits)
    with k r key have "crontab (tasks s ! t) = r" by (auto simp: well_keyed_def)
    with t p show "\<exists>t < length (tasks s). PeriodicTask.sa_state (tasks s ! t) = Persistent \<and>
                                    crontab (tasks s ! t) = r" by blast
  next
    assume "\<exists>t < length (tasks s). PeriodicTask.sa_state (tasks s ! t) = Persistent \<and>
                                    crontab (tasks s ! t) = r"
    then obtain t where t: "t < length (tasks s)"
      and p: "PeriodicTask.sa_state (tasks s ! t) = Persistent"
      and c: "crontab (tasks s ! t) = r" by blast
    from row [OF t p] c r key have "crontab_id (tasks s ! t) = Some key"
      by (simp add: crontab_pk_def)
    with p have "references (Some key) (tasks s ! t)" by (simp add: references_def is_row_def)
    with t show "\<exists>t < length (tasks s). references (primary_key s (InSession r)) (tasks s ! t)"
      by (auto simp: pk)
  qed
qed

text \<open>
  C5, amended. For a schedule object that has a primary key when the query runs,
  \<^verbatim>\<open>crontab_is_used\<close> returns, and answers true exactly when some task row of the store, as
  the query sees it, has that key in its foreign-key column; where nothing is waiting
  for a flush and keys are in order, that is exactly when some task row refers to that
  schedule object. For a schedule object without a primary key (a transient one, or a
  pending one in a session that does not flush on queries) it raises
  \<open>StatementError\<close>. It registers nothing and changes no object's data: the state it
  returns is the state the session's flush before the query leaves, which holds the
  same objects with the same data and commits to the same rows as the state given, and
  is the very same state when the session does not flush on queries or nothing is
  waiting for a flush.
\<close>

theorem crontab_is_used_reads:
  "(\<not> has_primary_key (query_autoflush s) c \<longrightarrow> crontab_is_used s c = Inl StatementError) \<and>
   (has_primary_key (query_autoflush s) c \<longrightarrow>
      (\<exists>used. crontab_is_used s c = Inr (used, query_autoflush s))) \<and>
   (\<forall>used s1. crontab_is_used s c = Inr (used, s1) \<longrightarrow>
      (used \<longleftrightarrow>
         (\<exists>t < length (tasks s1). references (primary_key s1 c) (tasks s1 ! t))) \<and>
      (\<forall>r. c = InSession r \<and> flushed s1 \<and> well_keyed s1 \<longrightarrow>
         (used \<longleftrightarrow>
            (\<exists>t < length (tasks s1). PeriodicTask.sa_state (tasks s1 ! t) = Persistent \<and>
                                       crontab (tasks s1 ! t) = r))) \<and>
      s1 = query_autoflush s \<and> same_contents s1 s \<and>
      session_flush s1 = session_flush s \<and>
      (\<not> autoflush s \<or> flushed s \<longrightarrow> s1 = s))"
proof (intro conjI allI impI)
  assume "\<not> has_primary_key (query_autoflush s) c"
  then show "crontab_is_used s c = Inl StatementError" by (simp add: crontab_is_used_cases)
next
  assume "has_primary_key (query_autoflush s) c"
  then show "\<exists>used. crontab_is_used s c = Inr (used, query_autoflush s)"
    by (simp add: crontab_is_used_cases)
next
  fix used s1 assume res: "crontab_is_used s c = Inr (used, s1)"
  then have h: "has_primary_key (query_autoflush s) c"
    by (simp add: crontab_is_used_cases split: if_splits)
  let ?X = "\<exists>t < length (tasks (query_autoflush s)).
              references (primary_key (query_autoflush s) c) (tasks (query_autoflush s) ! t)"
  have "crontab_is_used s c = Inr (?X, query_autoflush s)"
    using h by (simp only: crontab_is_used_cases if_True)
  with res have "Inr (used, s1) = (Inr (?X, query_autoflush s) :: error + bool \<times> session)"
    by (simp only:)
  then have both: "used = ?X \<and> s1 = query_autoflush s"
    by (simp only: sum.inject prod.inject)
  from both show s1: "s1 = query_autoflush s" by (rule conjunct2)
  from both have "used = ?X" by (rule conjunct1)
  then show u: "used \<longleftrightarrow>
         (\<exists>t < length (tasks s1). references (primary_key s1 c) (tasks s1 ! t))"
    unfolding s1 .
  show "same_contents s1 s" by (simp add: s1 same_contents_query_autoflush)
  show "session_flush s1 = session_flush s" by (simp add: s1)
  {
    fix r assume "c = InSession r \<and> flushed s1 \<and> well_keyed s1"
    then have c: "c = InSession r" and f: "flushed s1" and k: "well_keyed s1" by simp_all
    from h have "has_primary_key s1 (InSession r)" by (simp add: s1 c)
    from references_object [OF f k this] u
    show "used \<longleftrightarrow>
            (\<exists>t < length (tasks s1). PeriodicTask.sa_state (tasks s1 ! t) = Persistent \<and>
                                       crontab (tasks s1 ! t) = r)"
      by (simp add: c)
  }
  {
    assume "\<not> autoflush s \<or> flushed s"
    then show "s1 = s" by (simp add: s1 query_autoflush_unchanged)
  }
qed

lemma flush_one_task_deleted: "query_autoflush one_task_deleted = one_task_flushed"
  by (simp add: query_autoflush_def session_flush_def fresh_id_def expunge_crontab_def
      expunge_task_def crontab_pk_def one_task_deleted_def one_task_flushed_def
      every_minute_def Schedule.extend_def)

text \<open>
  C5 as stated fails twice. For a transient schedule the call does not return false, it
  raises. And on the state \<^verbatim>\<open>delete_task\<close> leaves (a schedule registered for deletion,
  \<open>autoflush\<close> set) the query flushes first, so the state returned is not the state
  given: the schedule's row is gone.
\<close>

theorem crontab_is_used_counterexample:
  "crontab_is_used one_task_session (Transient hourly) = Inl StatementError \<and>
   crontab_is_used one_task_deleted (InSession 0) = Inr (False, one_task_flushed) \<and>
   one_task_flushed \<noteq> one_task_deleted"
proof (intro conjI)
  show "crontab_is_used one_task_session (Transient hourly) = Inl StatementError"
    by (simp add: crontab_is_used_cases has_primary_key_def)
  show "crontab_is_used one_task_deleted (InSession 0) = Inr (False, one_task_flushed)"
    by (simp add: crontab_is_used_cases flush_one_task_deleted)
       (simp add: has_primary_key_def references_def is_row_def one_task_flushed_def
                  Schedule.extend_def)
  show "one_task_flushed \<noteq> one_task_deleted"
    by (simp add: one_task_flushed_def one_task_deleted_def Schedule.extend_def)
qed

text \<open>
  On the store with one task: its schedule has a key and is used, as task 0 refers to
  it; a transient hourly schedule has no key and the call raises.
\<close>

theorem crontab_is_used_reads_witness:
  "has_primary_key (query_autoflush one_task_session) (InSession 0) \<and>
   crontab_is_used one_task_session (InSession 0) = Inr (True, one_task_session) \<and>
   PeriodicTask.sa_state (tasks one_task_session ! 0) = Persistent \<and>
   crontab (tasks one_task_session ! 0) = 0 \<and>
   \<not> has_primary_key (query_autoflush one_task_session) (Transient hourly) \<and>
   crontab_is_used one_task_session (Transient hourly) = Inl StatementError"
proof -
  have h: "has_primary_key (query_autoflush one_task_session) (InSession 0)"
    by (simp add: flush_one_task_session)
       (simp add: has_primary_key_def one_task_session_def Schedule.extend_def)
  have n: "\<not> has_primary_key (query_autoflush one_task_session) (Transient hourly)"
    by (simp add: has_primary_key_def)
  have f: "flushed one_task_session"
    by (simp add: flushed_def one_task_session_def crontab_pk_def Schedule.extend_def)
  have k: "well_keyed one_task_session"
    by (simp add: well_keyed_def one_task_session_def Schedule.extend_def)
  have p: "PeriodicTask.sa_state (tasks one_task_session ! 0) = Persistent"
    and c: "crontab (tasks one_task_session ! 0) = 0"
    and l: "length (tasks one_task_session) = 1"
    by (simp_all add: one_task_session_def)
  note inst = crontab_is_used_reads [of one_task_session "InSession 0"]
  from inst h obtain used
    where res: "crontab_is_used one_task_session (InSession 0) = Inr (used, one_task_session)"
    by (auto simp: flush_one_task_session)
  from inst res f k have "used \<longleftrightarrow>
      (\<exists>t < length (tasks one_task_session).
         PeriodicTask.sa_state (tasks one_task_session ! t) = Persistent \<and>
         crontab (tasks one_task_session ! t) = 0)"
    by blast
  with p c l have "used" by auto
  with res have a: "crontab_is_used one_task_session (InSession 0) = Inr (True, one_task_session)"
    by simp
  from crontab_is_used_reads [of one_task_session "Transient hourly"] n
  have b: "crontab_is_used one_task_session (Transient hourly) = Inl StatementError" by blast
  from h a p c n b show ?thesis by (intro conjI)
qed

end
